theory Spec2Isabelle
  imports Main "HOL-Library.Word"
begin

section \<open>JavaScript values and thrown errors\<close>

text \<open>
  The values that flow through the assertion library and the call recorder. A number is
  an IEEE-754 binary64, kept as its 64 bits, so that NaN, \<open>+0\<close> and \<open>-0\<close> are what they
  are in the language. Functions and objects carry their reference (an address): two
  objects are the same object exactly when the addresses agree. An object lists its own
  enumerable string-keyed properties in the order \<open>Object.keys\<close> reports them. Values
  are finite trees, so cyclic object graphs are outside the model.
\<close>

datatype jsval =
    JUndefined
  | JNull
  | JBoolean bool
  | JNumber "64 word"
  | JString string
  | JFunction nat
  | JObject nat "(string \<times> jsval) list"

text \<open>
  What a \<open>throw\<close> carries: \<open>new Error(message)\<close>, the assertion library's
  \<open>AssertionError\<close> with its \<open>expected\<close> and \<open>actual\<close> payloads (the text of its
  message is not kept), or any other thrown value.
\<close>

datatype error =
    Error (message: string)
  | AssertionError (expected: jsval) (actual: jsval)
  | Thrown jsval

section \<open>The runner's data model (runner.ts, types.ts)\<close>

text \<open>
  User code (test bodies and hooks) acts on the world: the clock that \<open>Date.now()\<close>
  reads and the user's own state. An action either returns (\<open>Inr ()\<close>) or throws
  (\<open>Inl e\<close>); an awaited promise that rejects is a throw. Actions are total: a body
  that never settles is outside the model.
\<close>

record 'u world =
  clock :: int
  user :: 'u

type_synonym 'u action = "'u world \<Rightarrow> (error + unit) \<times> 'u world"

record 'u Test =
  t_name :: string
  t_fn :: "'u action"
  t_skip :: bool
  t_only :: bool

datatype 'u Suite = Suite
  (s_name: string)
  (s_tests: "'u Test list")
  (s_beforeEach: "'u action list")
  (s_afterEach: "'u action list")
  (s_beforeAll: "'u action list")
  (s_afterAll: "'u action list")
  (s_suites: "'u Suite list")
  (s_skip: bool)
  (s_only: bool)

record AssertionResult =
  a_description :: string
  a_passed :: bool
  a_expected :: "jsval option"
  a_actual :: "jsval option"
  a_error :: "error option"

record TestResult =
  r_name :: string
  r_passed :: bool
  r_error :: "error option"
  r_duration :: int
  r_assertions :: "AssertionResult list"

record TestSuiteResult =
  sr_name :: string
  sr_tests :: "TestResult list"
  sr_passed :: nat
  sr_failed :: nat
  sr_skipped :: nat
  sr_duration :: int

section \<open>Running one test (runTest)\<close>

text \<open>\<open>for (const hook of hooks) await hook()\<close>: the first hook that throws ends the loop.\<close>

fun runHooks :: "'u action list \<Rightarrow> 'u world \<Rightarrow> (error + unit) \<times> 'u world" where
  "runHooks [] w = (Inr (), w)"
| "runHooks (hook # hooks) w =
     (case hook w of
        (Inl e, w') \<Rightarrow> (Inl e, w')
      | (Inr _, w') \<Rightarrow> runHooks hooks w')"

text \<open>The body of the \<open>try\<close> block of \<open>runTest\<close>, up to its \<open>return\<close>.\<close>

definition runTest_try :: "'u Test \<Rightarrow> 'u Suite \<Rightarrow> 'u world \<Rightarrow> (error + unit) \<times> 'u world" where
  "runTest_try test suite w =
     (case runHooks (s_beforeEach suite) w of
        (Inl e, w1) \<Rightarrow> (Inl e, w1)
      | (Inr _, w1) \<Rightarrow>
          (case t_fn test w1 of
             (Inl e, w2) \<Rightarrow> (Inl e, w2)
           | (Inr _, w2) \<Rightarrow> runHooks (s_afterEach suite) w2))"

definition runTest :: "'u Test \<Rightarrow> 'u Suite \<Rightarrow> 'u world \<Rightarrow> TestResult \<times> 'u world" where
  "runTest test suite w =
     (let startTime = clock w; assertions = [] in
      case runTest_try test suite w of
        (Inr _, w') \<Rightarrow>
          (\<lparr>r_name = t_name test, r_passed = True, r_error = None,
            r_duration = clock w' - startTime, r_assertions = assertions\<rparr>, w')
      | (Inl e, w') \<Rightarrow>
          (let w'' = snd (runHooks (s_afterEach suite) w') in
           (\<lparr>r_name = t_name test, r_passed = False, r_error = Some e,
             r_duration = clock w'' - startTime, r_assertions = assertions\<rparr>, w'')))"

section \<open>Running a suite (runSuite, runAllTests)\<close>

definition fullName :: "string \<Rightarrow> 'u Suite \<Rightarrow> string" where
  "fullName parentName suite =
     (if parentName \<noteq> [] then parentName @ '' > '' @ s_name suite else s_name suite)"

definition hasOnly :: "'u Suite \<Rightarrow> bool" where
  "hasOnly suite = (list_ex t_only (s_tests suite) \<or> list_ex s_only (s_suites suite))"

text \<open>The loop over \<open>suite.tests\<close>; \<open>results\<close> is the list being pushed to.\<close>

fun runTests ::
  "'u Suite \<Rightarrow> bool \<Rightarrow> 'u Test list \<Rightarrow> TestResult list \<Rightarrow> 'u world \<Rightarrow> TestResult list \<times> 'u world" where
  "runTests suite ho [] results w = (results, w)"
| "runTests suite ho (test # tests) results w =
     (if t_skip test then
        runTests suite ho tests
          (results @ [\<lparr>r_name = t_name test, r_passed = True, r_error = None,
                       r_duration = 0, r_assertions = []\<rparr>]) w
      else if ho \<and> \<not> t_only test then runTests suite ho tests results w
      else
        (case runTest test suite w of
           (result, w') \<Rightarrow> runTests suite ho tests (results @ [result]) w'))"

text \<open>
  \<open>runSuite\<close>, and the loop over \<open>suite.suites\<close> inside it (\<open>runSuites\<close>). A hook of
  \<open>beforeAll\<close> or \<open>afterAll\<close> that throws is caught nowhere: the call ends with \<open>Inl\<close>.
\<close>

function runSuite :: "'u Suite \<Rightarrow> string \<Rightarrow> 'u world \<Rightarrow> (error + TestSuiteResult) \<times> 'u world"
  and runSuites ::
    "bool \<Rightarrow> string \<Rightarrow> 'u Suite list \<Rightarrow> TestResult list \<Rightarrow> 'u world
      \<Rightarrow> (error + TestResult list) \<times> 'u world" where
  "runSuite suite parentName w =
     (let startTime = clock w in
      case runHooks (s_beforeAll suite) w of
        (Inl e, w1) \<Rightarrow> (Inl e, w1)
      | (Inr _, w1) \<Rightarrow>
          (case runTests suite (hasOnly suite) (s_tests suite) [] w1 of
             (results, w2) \<Rightarrow>
               (case runSuites (hasOnly suite) (fullName parentName suite) (s_suites suite)
                       results w2 of
                  (Inl e, w3) \<Rightarrow> (Inl e, w3)
                | (Inr results', w3) \<Rightarrow>
                    (case runHooks (s_afterAll suite) w3 of
                       (Inl e, w4) \<Rightarrow> (Inl e, w4)
                     | (Inr _, w4) \<Rightarrow>
                         (Inr \<lparr>sr_name = fullName parentName suite,
                               sr_tests = results',
                               sr_passed = length (filter r_passed results'),
                               sr_failed = length (filter (\<lambda>r. \<not> r_passed r) results'),
                               sr_skipped = length (filter t_skip (s_tests suite)),
                               sr_duration = clock w4 - startTime\<rparr>, w4)))))"
| "runSuites ho name [] results w = (Inr results, w)"
| "runSuites ho name (nestedSuite # rest) results w =
     (if s_skip nestedSuite then runSuites ho name rest results w
      else if ho \<and> \<not> s_only nestedSuite then runSuites ho name rest results w
      else
        (case runSuite nestedSuite name w of
           (Inl e, w') \<Rightarrow> (Inl e, w')
         | (Inr nestedResult, w') \<Rightarrow>
             runSuites ho name rest (results @ sr_tests nestedResult) w'))"
  by pat_completeness auto

termination
proof (relation "measure (\<lambda>x. case x of
                   Inl (suite, _, _) \<Rightarrow> size suite
                 | Inr (_, _, suites, _, _) \<Rightarrow> size_list size suites)", goal_cases)
  case (2 suite)
  show ?case by (cases suite) simp
qed simp_all

declare runSuite.simps [simp del]

text \<open>\<open>runAllTests\<close>: the loop over the root registry, which is read as a parameter.\<close>

fun runRootSuites ::
  "'u Suite list \<Rightarrow> TestSuiteResult list \<Rightarrow> 'u world
     \<Rightarrow> (error + TestSuiteResult list) \<times> 'u world" where
  "runRootSuites [] results w = (Inr results, w)"
| "runRootSuites (suite # rest) results w =
     (if s_skip suite then runRootSuites rest results w
      else
        (case runSuite suite [] w of
           (Inl e, w') \<Rightarrow> (Inl e, w')
         | (Inr result, w') \<Rightarrow> runRootSuites rest (results @ [result]) w'))"

definition runAllTests ::
  "'u Suite list \<Rightarrow> 'u world \<Rightarrow> (error + TestSuiteResult list) \<times> 'u world" where
  "runAllTests rootSuites w = runRootSuites rootSuites [] w"

section \<open>Registration (describe, test, clearSuites)\<close>

text \<open>
  Registration mutates suite objects through the module-level pointer \<open>currentSuite\<close>,
  so the suites live in a store here: the address of a suite object is its index in
  \<open>heap\<close>, and \<open>currentSuite\<close>, \<open>rootSuites\<close> and a suite's \<open>suites\<close> hold addresses.
  A reference always denotes an allocated object; a registry whose \<open>currentSuite\<close> is
  not below \<open>length heap\<close> does not arise. The definition action passed to \<open>describe\<close>
  is user code: it acts on the registry (and, through the record's extension, on
  anything else) and returns or throws.
\<close>

record 'u SuiteObj =
  o_name :: string
  o_tests :: "'u Test list"
  o_beforeEach :: "'u action list"
  o_afterEach :: "'u action list"
  o_beforeAll :: "'u action list"
  o_afterAll :: "'u action list"
  o_suites :: "nat list"
  o_skip :: bool
  o_only :: bool

record 'u registry =
  heap :: "'u SuiteObj list"
  currentSuite :: "nat option"
  rootSuites :: "nat list"

type_synonym ('u, 'z) definition_action =
  "('u, 'z) registry_scheme \<Rightarrow> (error + unit) \<times> ('u, 'z) registry_scheme"

text \<open>The object literal that the three forms of \<open>describe\<close> build.\<close>

definition newSuite :: "string \<Rightarrow> bool \<Rightarrow> bool \<Rightarrow> 'u SuiteObj" where
  "newSuite name skip only =
     \<lparr>o_name = name, o_tests = [], o_beforeEach = [], o_afterEach = [], o_beforeAll = [],
      o_afterAll = [], o_suites = [], o_skip = skip, o_only = only\<rparr>"

text \<open>
  Allocation of the literal followed by
  \<open>if (currentSuite) currentSuite.suites.push(suite); else rootSuites.push(suite)\<close>;
  the address of the new object is returned with the registry.
\<close>

definition pushSuite ::
  "'u SuiteObj \<Rightarrow> ('u, 'z) registry_scheme \<Rightarrow> nat \<times> ('u, 'z) registry_scheme" where
  "pushSuite suite r =
     (let a = length (heap r); r1 = r\<lparr>heap := heap r @ [suite]\<rparr> in
      case currentSuite r1 of
        Some c \<Rightarrow>
          (a, r1\<lparr>heap := (heap r1)[c := (heap r1 ! c)\<lparr>o_suites := o_suites (heap r1 ! c) @ [a]\<rparr>]\<rparr>)
      | None \<Rightarrow> (a, r1\<lparr>rootSuites := rootSuites r1 @ [a]\<rparr>))"

text \<open>\<open>try { fn(); } finally { currentSuite = previousSuite; }\<close>: the assignment runs on
  both exits, and a throw of \<open>fn\<close> goes on to the caller.\<close>

definition describe ::
  "string \<Rightarrow> ('u, 'z) definition_action \<Rightarrow> ('u, 'z) registry_scheme
     \<Rightarrow> (error + unit) \<times> ('u, 'z) registry_scheme" where
  "describe name fn r =
     (case pushSuite (newSuite name False False) r of
        (suite, r1) \<Rightarrow>
          (let previousSuite = currentSuite r1;
               r2 = r1\<lparr>currentSuite := Some suite\<rparr> in
           case fn r2 of
             (outcome, r3) \<Rightarrow> (outcome, r3\<lparr>currentSuite := previousSuite\<rparr>)))"

definition describe_skip ::
  "string \<Rightarrow> ('u, 'z) definition_action \<Rightarrow> ('u, 'z) registry_scheme
     \<Rightarrow> (error + unit) \<times> ('u, 'z) registry_scheme" where
  "describe_skip name fn r = (Inr (), snd (pushSuite (newSuite name True False) r))"

definition describe_only ::
  "string \<Rightarrow> ('u, 'z) definition_action \<Rightarrow> ('u, 'z) registry_scheme
     \<Rightarrow> (error + unit) \<times> ('u, 'z) registry_scheme" where
  "describe_only name fn r =
     (case pushSuite (newSuite name False True) r of
        (suite, r1) \<Rightarrow>
          (let previousSuite = currentSuite r1;
               r2 = r1\<lparr>currentSuite := Some suite\<rparr> in
           case fn r2 of
             (outcome, r3) \<Rightarrow> (outcome, r3\<lparr>currentSuite := previousSuite\<rparr>)))"

definition test ::
  "string \<Rightarrow> 'u action \<Rightarrow> ('u, 'z) registry_scheme
     \<Rightarrow> (error + unit) \<times> ('u, 'z) registry_scheme" where
  "test name fn r =
     (case currentSuite r of
        None \<Rightarrow> (Inl (Error ''test() must be called inside describe()''), r)
      | Some c \<Rightarrow>
          (Inr (),
           r\<lparr>heap := (heap r)[c := (heap r ! c)\<lparr>o_tests := o_tests (heap r ! c) @
                 [\<lparr>t_name = name, t_fn = fn, t_skip = False, t_only = False\<rparr>]\<rparr>]\<rparr>))"

definition clearSuites :: "('u, 'z) registry_scheme \<Rightarrow> ('u, 'z) registry_scheme" where
  "clearSuites r = r\<lparr>rootSuites := [], currentSuite := None\<rparr>"

section \<open>The assertion library (ExpectImpl)\<close>

text \<open>
  A binary64 is NaN when its eleven exponent bits are all set and its fraction is not
  zero. \<open>Object.is\<close> is the language's SameValue: two NaNs are the same value, a number
  is otherwise the same as another when the bits agree (so \<open>+0\<close> and \<open>-0\<close> differ),
  objects and functions are the same when they are one reference, and every other value
  is compared by its content.
\<close>

definition isNaN :: "64 word \<Rightarrow> bool" where
  "isNaN x \<longleftrightarrow>
     and x 0x7FF0000000000000 = 0x7FF0000000000000 \<and> and x 0x000FFFFFFFFFFFFF \<noteq> 0"

fun Object_is :: "jsval \<Rightarrow> jsval \<Rightarrow> bool" where
  "Object_is (JNumber x) (JNumber y) = ((isNaN x \<and> isNaN y) \<or> x = y)"
| "Object_is (JObject i _) (JObject j _) = (i = j)"
| "Object_is a b = (a = b)"

fun typeof :: "jsval \<Rightarrow> string" where
  "typeof JUndefined = ''undefined''"
| "typeof JNull = ''object''"
| "typeof (JBoolean _) = ''boolean''"
| "typeof (JNumber _) = ''number''"
| "typeof (JString _) = ''string''"
| "typeof (JFunction _) = ''function''"
| "typeof (JObject _ _) = ''object''"





record ExpectImpl =
  e_value :: jsval
  e_isNot :: bool

definition expect :: "jsval \<Rightarrow> ExpectImpl" where
  "expect v = \<lparr>e_value = v, e_isNot = False\<rparr>"

definition expect_not :: "ExpectImpl \<Rightarrow> ExpectImpl" where
  "expect_not e = \<lparr>e_value = e_value e, e_isNot = \<not> e_isNot e\<rparr>"

text \<open>\<open>assert\<close>: returns when the (possibly negated) condition holds, throws an
  \<open>AssertionError\<close> otherwise.\<close>

definition assert :: "ExpectImpl \<Rightarrow> bool \<Rightarrow> jsval \<Rightarrow> jsval \<Rightarrow> error + unit" where
  "assert e passed expected' actual' =
     (let passed' = (if e_isNot e then \<not> passed else passed) in
      if \<not> passed' then Inl (AssertionError expected' actual') else Inr ())"

text \<open>
  The message of a matcher is rendered before \<open>assert\<close> looks at the outcome, and the
  rendering can throw. What it takes from outside the repository is a parameter:
  \<open>Array.isArray\<close> (by the reference of the object), \<open>JSON.stringify(value, null, 2)\<close>,
  which runs a \<open>toJSON\<close> method of the value where there is one and throws what that
  throws, and gives \<open>undefined\<close> (\<open>None\<close>) for a value it does not serialise,
  \<open>String(value)\<close>, and \<open>diffLines\<close> of the package \<open>diff\<close>. The elements of an
  array are the values of its properties, in order.
\<close>

record diff_part =
  d_added :: bool
  d_removed :: bool
  d_value :: string

record renderer =
  is_array :: "nat \<Rightarrow> bool"
  JSON_stringify :: "jsval \<Rightarrow> error + string option"
  String_of :: "jsval \<Rightarrow> string"
  diffLines :: "string option \<Rightarrow> string option \<Rightarrow> error + diff_part list"

text \<open>\<open>parts.join(', ')\<close>; an element that is \<open>undefined\<close> contributes the empty string.\<close>

fun join_comma :: "string option list \<Rightarrow> string" where
  "join_comma [] = []"
| "join_comma [x] = (case x of None \<Rightarrow> [] | Some str \<Rightarrow> str)"
| "join_comma (x # xs) = (case x of None \<Rightarrow> [] | Some str \<Rightarrow> str) @ '', '' @ join_comma xs"

text \<open>\<open>formatValue\<close>, and \<open>value.map(v => this.formatValue(v))\<close> over the elements of
  an array (\<open>formatValues\<close>): the first element whose rendering throws ends the map.\<close>

fun formatValue :: "renderer \<Rightarrow> jsval \<Rightarrow> error + string option"
  and formatValues :: "renderer \<Rightarrow> (string \<times> jsval) list \<Rightarrow> error + string option list" where
  "formatValue env JNull = Inr (Some ''null'')"
| "formatValue env JUndefined = Inr (Some ''undefined'')"
| "formatValue env (JString str) = Inr (Some (CHR 0x22 # str @ [CHR 0x22]))"
| "formatValue env (JFunction f) = Inr (Some ''[Function]'')"
| "formatValue env (JObject a props) =
     (if is_array env a then
        (case formatValues env props of
           Inl err \<Rightarrow> Inl err
         | Inr parts \<Rightarrow> Inr (Some (''['' @ join_comma parts @ '']'')))
      else JSON_stringify env (JObject a props))"
| "formatValue env (JBoolean b) = Inr (Some (String_of env (JBoolean b)))"
| "formatValue env (JNumber x) = Inr (Some (String_of env (JNumber x)))"
| "formatValues env [] = Inr []"
| "formatValues env ((key, v) # rest) =
     (case formatValue env v of
        Inl err \<Rightarrow> Inl err
      | Inr part \<Rightarrow>
          (case formatValues env rest of
             Inl err \<Rightarrow> Inl err
           | Inr parts \<Rightarrow> Inr (part # parts)))"


text \<open>
  \<open>toBe\<close> renders its message with \<open>formatValue\<close> of the two values as well. On a
  value that is not an object \<open>formatValue\<close> returns and never reaches
  \<open>JSON.stringify\<close>; \<open>toBe\<close> is applied to numbers only below, and is given by its
  outcome alone.
\<close>

definition toBe :: "ExpectImpl \<Rightarrow> jsval \<Rightarrow> error + unit" where
  "toBe e expected' = assert e (Object_is (e_value e) expected') expected' (e_value e)"


section \<open>The call recorder (MockFunction)\<close>

text \<open>
  A behaviour is called with the arguments, acts on the world and returns a value or
  throws; awaiting a promise it returns gives the value it resolves to, or the throw of
  its rejection. An option that is absent is \<open>None\<close>, or \<open>JUndefined\<close> for
  \<open>returnValue\<close>, which the constructor compares with \<open>undefined\<close>.
\<close>

type_synonym 'u implementation = "jsval list \<Rightarrow> 'u world \<Rightarrow> (error + jsval) \<times> 'u world"

record MockCall =
  c_args :: "jsval list"
  c_timestamp :: int
  c_result :: "jsval option"
  c_error :: "error option"

record 'u MockFunction =
  m_name :: string
  m_implementation :: "'u implementation option"
  m_calls :: "MockCall list"
  m_returnValues :: "jsval list"
  m_errors :: "error list"

record 'u MockToolOptions =
  returnValue :: jsval
  implementation :: "'u implementation option"
  throwError :: "(string + error) option"




definition mockClear :: "'u MockFunction \<Rightarrow> 'u MockFunction" where
  "mockClear m = m\<lparr>m_calls := [], m_returnValues := [], m_errors := []\<rparr>"

section \<open>The order the specification promises\<close>

text \<open>
  Written from the specification's words, to be compared with \<open>runSuite\<close>: the names of
  a suite's results are the names of its direct tests that are skip-recorded or run, in
  declared order, followed by those of each direct child suite that is not omitted, in
  declared order.
\<close>

fun declared_order :: "'u Suite \<Rightarrow> string list" where
  "declared_order (Suite name tests be ae ba aa suites skip only) =
     map t_name
       (filter (\<lambda>t. t_skip t \<or> \<not> hasOnly (Suite name tests be ae ba aa suites skip only) \<or> t_only t)
          tests) @
     concat (map declared_order
       (filter (\<lambda>c. \<not> s_skip c \<and>
                  (\<not> hasOnly (Suite name tests be ae ba aa suites skip only) \<or> s_only c))
          suites))"

section \<open>Example inputs\<close>

text \<open>
  User code for the concrete runs below. The user's state is a log of the actions that
  ran; every action appends its label and advances the clock by one millisecond.
  \<open>logs\<close> returns, \<open>throws\<close> throws \<open>new Error(label)\<close>, and \<open>throws_on_rerun\<close> returns
  the first time it runs and throws from then on.
\<close>

definition logs :: "string \<Rightarrow> string list action" where
  "logs label w = (Inr (), \<lparr>clock = clock w + 1, user = user w @ [label]\<rparr>)"

definition throws :: "string \<Rightarrow> string list action" where
  "throws label w = (Inl (Error label), \<lparr>clock = clock w + 1, user = user w @ [label]\<rparr>)"

definition throws_on_rerun :: "string \<Rightarrow> string list action" where
  "throws_on_rerun label w =
     (if label \<in> set (user w) then Inl (Error label) else Inr (),
      \<lparr>clock = clock w + 1, user = user w @ [label]\<rparr>)"

definition world0 :: "string list world" where
  "world0 = \<lparr>clock = 0, user = []\<rparr>"

definition mk_test :: "string \<Rightarrow> 'u action \<Rightarrow> bool \<Rightarrow> bool \<Rightarrow> 'u Test" where
  "mk_test name fn skip only = \<lparr>t_name = name, t_fn = fn, t_skip = skip, t_only = only\<rparr>"

text \<open>Suites for the concrete runs.\<close>

definition ex_only_suite :: "string list Suite" where
  "ex_only_suite =
     Suite ''S''
       [mk_test ''a'' (logs ''a'') False False,
        mk_test ''b'' (logs ''b'') False True,
        mk_test ''c'' (logs ''c'') True False]
       [logs ''before''] [logs ''after''] [] []
       [Suite ''N'' [mk_test ''d'' (logs ''d'') False False] [] [] [] [] [] False False,
        Suite ''O'' [mk_test ''e'' (logs ''e'') False False] [] [] [] [] [] False True]
       False False"

definition ex_grandchild_suite :: "string list Suite" where
  "ex_grandchild_suite =
     Suite ''G'' [mk_test ''x'' (logs ''x'') False False] [] [] [] []
       [Suite ''C'' [mk_test ''y'' (logs ''y'') False True,
                     mk_test ''z'' (logs ''z'') False False] [] [] [] [] [] False False]
       False False"

definition ex_cleanup_suite :: "string list Suite" where
  "ex_cleanup_suite =
     Suite ''S'' [] [] [throws ''cleanup'', logs ''released''] [] [] [] False False"

definition ex_rerun_suite :: "string list Suite" where
  "ex_rerun_suite =
     Suite ''S'' [] [] [throws_on_rerun ''h1'', logs ''h2'', throws ''h3''] [] [] [] False False"

definition ex_after_suite :: "string list Suite" where
  "ex_after_suite =
     Suite ''S'' [] [logs ''before''] [logs ''h1'', throws ''h2'', logs ''h3''] [] [] [] False False"

definition ex_skip_suite :: "string list Suite" where
  "ex_skip_suite =
     Suite ''S''
       [mk_test ''first'' (logs ''first'') False False,
        mk_test ''pending'' (logs ''pending'') True False,
        mk_test ''last'' (logs ''last'') False False]
       [logs ''before''] [logs ''after''] [] [] [] False False"




text \<open>The numbers NaN, \<open>+0\<close>, \<open>-0\<close>, 1 and 2 as binary64 bit patterns.\<close>

definition js_NaN :: jsval where
  "js_NaN = JNumber 0x7FF8000000000000"

definition js_pos_zero :: jsval where
  "js_pos_zero = JNumber 0"

definition js_neg_zero :: jsval where
  "js_neg_zero = JNumber 0x8000000000000000"












text \<open>
  The empty registry, a definition action that registers a test and then throws, and
  the registry in which the action of a top-level \<open>describe("Outer", ...)\<close> starts.
\<close>

definition ex_registry :: "string list registry" where
  "ex_registry = \<lparr>heap = [], currentSuite = None, rootSuites = []\<rparr>"

definition ex_failing_definition :: "(string list, unit) definition_action" where
  "ex_failing_definition r =
     (case test ''t'' (logs ''t'') r of (outcome, r') \<Rightarrow> (Inl (Error ''bad definition''), r'))"

definition ex_entered :: "string list registry" where
  "ex_entered = \<lparr>heap = [newSuite ''Outer'' False False], currentSuite = Some 0, rootSuites = [0]\<rparr>"

section \<open>Properties of the runner\<close>

lemma runHooks_append:
  "runHooks (xs @ ys) w =
     (case runHooks xs w of (Inl e, w') \<Rightarrow> (Inl e, w') | (Inr u, w') \<Rightarrow> runHooks ys w')"
  by (induction xs arbitrary: w) (auto split: prod.splits sum.splits)

lemma runTests_append:
  "runTests s ho (xs @ ys) rs w =
     (case runTests s ho xs rs w of (rs1, w1) \<Rightarrow> runTests s ho ys rs1 w1)"
  by (induction xs arbitrary: rs w) (auto split: prod.splits)

lemma runSuites_append:
  "runSuites ho n (xs @ ys) rs w =
     (case runSuites ho n xs rs w of
        (Inl e, w1) \<Rightarrow> (Inl e, w1)
      | (Inr rs1, w1) \<Rightarrow> runSuites ho n ys rs1 w1)"
  by (induction xs arbitrary: rs w) (auto split: prod.splits sum.splits)


lemma runTest_hooks_cong:
  assumes b: "s_beforeEach s = s_beforeEach s'" and a: "s_afterEach s = s_afterEach s'"
  shows "runTest t s w = runTest t s' w"
  unfolding runTest_def runTest_try_def a b by (rule refl)

lemma runTests_hooks_cong:
  "s_beforeEach s = s_beforeEach s' \<Longrightarrow> s_afterEach s = s_afterEach s' \<Longrightarrow>
   runTests s ho ts rs w = runTests s' ho ts rs w"
  by (induction ts arbitrary: rs w) (auto simp: runTest_hooks_cong [of s s'] split: prod.splits)

lemma runTests_only_filter:
  "runTests s True (filter (\<lambda>t. t_skip t \<or> t_only t) ts) rs w = runTests s True ts rs w"
  by (induction ts arbitrary: rs w) (auto split: prod.splits)

lemma runSuites_only_filter:
  "runSuites True n (filter s_only ss) rs w = runSuites True n ss rs w"
  by (induction ss arbitrary: rs w) (auto split: prod.splits sum.splits)

lemma hasOnly_iff:
  "hasOnly s \<longleftrightarrow> (\<exists>t\<in>set (s_tests s). t_only t) \<or> (\<exists>c\<in>set (s_suites s). s_only c)"
  by (simp add: hasOnly_def list_ex_iff)

lemma only_prune:
  assumes "hasOnly s"
  shows "runSuite s p w =
     runSuite (Suite (s_name s) (filter (\<lambda>t. t_skip t \<or> t_only t) (s_tests s))
                (s_beforeEach s) (s_afterEach s) (s_beforeAll s) (s_afterAll s)
                (filter s_only (s_suites s)) (s_skip s) (s_only s)) p w"
    (is "_ = runSuite ?s' p w")
proof -
  have ho: "hasOnly ?s'"
    using assms by (auto simp: hasOnly_def list_ex_iff)
  have t: "runTests ?s' True (s_tests ?s') [] w1 = runTests s True (s_tests s) [] w1" for w1
    using runTests_hooks_cong [of ?s' s True "s_tests ?s'" "[]" w1]
    by (simp add: runTests_only_filter)
  have sk: "length (filter t_skip (s_tests ?s')) = length (filter t_skip (s_tests s))"
    by (simp add: conj_commute cong: conj_cong)
  have fn: "fullName p ?s' = fullName p s"
    by (simp add: fullName_def)
  show ?thesis
    apply (subst runSuite.simps)
    apply (subst runSuite.simps)
    using assms ho t sk fn
    apply (simp add: runSuites_only_filter cong: prod.case_cong sum.case_cong)
    done
qed

lemma declared_order_sel:
  "declared_order s =
     map t_name (filter (\<lambda>t. t_skip t \<or> \<not> hasOnly s \<or> t_only t) (s_tests s)) @
     concat (map declared_order (filter (\<lambda>c. \<not> s_skip c \<and> (\<not> hasOnly s \<or> s_only c)) (s_suites s)))"
  by (cases s) simp

lemma runTest_name: "r_name (fst (runTest t s w)) = t_name t"
  by (simp add: runTest_def Let_def split: prod.splits sum.splits)

lemma runTests_names:
  "map r_name (fst (runTests s ho ts rs w)) =
     map r_name rs @ map t_name (filter (\<lambda>t. t_skip t \<or> \<not> ho \<or> t_only t) ts)"
proof (induction ts arbitrary: rs w)
  case Nil
  show ?case by simp
next
  case (Cons t ts)
  obtain r w' where rt: "runTest t s w = (r, w')" by (cases "runTest t s w")
  with runTest_name [of t s w] have "r_name r = t_name t" by simp
  with rt Cons show ?case by auto
qed

lemma runSuite_runSuites_names:
  "(\<forall>r w'. runSuite (s :: 'u Suite) p w = (Inr r, w') \<longrightarrow>
      map r_name (sr_tests r) = declared_order s)"
  "(\<forall>rs' w'. runSuites ho n (ss :: 'u Suite list) rs w0 = (Inr rs', w') \<longrightarrow>
      map r_name rs' = map r_name rs @
        concat (map declared_order (filter (\<lambda>c. \<not> s_skip c \<and> (\<not> ho \<or> s_only c)) ss)))"
proof (induction s p w and ho n ss rs w0 rule: runSuite_runSuites.induct)
  case (1 suite parentName w)
  show ?case
  proof (intro allI impI)
    fix r w'
    assume run: "runSuite suite parentName w = (Inr r, w')"
    obtain w1 where ba: "runHooks (s_beforeAll suite) w = (Inr (), w1)"
      using run by (subst (asm) runSuite.simps) (auto split: prod.splits sum.splits)
    obtain results w2 where ts: "runTests suite (hasOnly suite) (s_tests suite) [] w1 = (results, w2)"
      by (cases "runTests suite (hasOnly suite) (s_tests suite) [] w1")
    obtain results' w3 where
      ns: "runSuites (hasOnly suite) (fullName parentName suite) (s_suites suite) results w2
             = (Inr results', w3)"
      and r: "sr_tests r = results'"
      using run ba ts by (subst (asm) runSuite.simps) (auto split: prod.splits sum.splits)
    have "map r_name results' = map r_name results @
        concat (map declared_order
          (filter (\<lambda>c. \<not> s_skip c \<and> (\<not> hasOnly suite \<or> s_only c)) (s_suites suite)))"
      using "1.IH" [OF refl ba [symmetric] refl ts [symmetric]] ns by blast
    moreover have "map r_name results =
        map t_name (filter (\<lambda>t. t_skip t \<or> \<not> hasOnly suite \<or> t_only t) (s_tests suite))"
      using runTests_names [of suite "hasOnly suite" "s_tests suite" "[]" w1] ts by simp
    ultimately show "map r_name (sr_tests r) = declared_order suite"
      using r by (subst declared_order_sel) simp
  qed
next
  case (2 ho name results w)
  show ?case by simp
next
  case (3 ho name nestedSuite rest results w)
  show ?case
  proof (intro allI impI)
    fix rs' w'
    assume run: "runSuites ho name (nestedSuite # rest) results w = (Inr rs', w')"
    show "map r_name rs' = map r_name results @
        concat (map declared_order
          (filter (\<lambda>c. \<not> s_skip c \<and> (\<not> ho \<or> s_only c)) (nestedSuite # rest)))"
    proof (cases "s_skip nestedSuite \<or> (ho \<and> \<not> s_only nestedSuite)")
      case True
      have eq: "runSuites ho name (nestedSuite # rest) results w =
          runSuites ho name rest results w"
        using True by auto
      have run': "runSuites ho name rest results w = (Inr rs', w')"
        using run unfolding eq .
      have "\<forall>rs' w'. runSuites ho name rest results w = (Inr rs', w') \<longrightarrow>
          map r_name rs' = map r_name results @
            concat (map declared_order (filter (\<lambda>c. \<not> s_skip c \<and> (\<not> ho \<or> s_only c)) rest))"
        using True "3.IH"(1,2) by blast
      then have "map r_name rs' = map r_name results @
            concat (map declared_order (filter (\<lambda>c. \<not> s_skip c \<and> (\<not> ho \<or> s_only c)) rest))"
        using run' by blast
      then show ?thesis using True by auto
    next
      case False
      then obtain nr w1 where
        n: "runSuite nestedSuite name w = (Inr nr, w1)"
        and rest: "runSuites ho name rest (results @ sr_tests nr) w1 = (Inr rs', w')"
        using run by (auto split: prod.splits sum.splits)
      have "map r_name (sr_tests nr) = declared_order nestedSuite"
        using "3.IH"(3) False n by blast
      moreover have "map r_name rs' = map r_name (results @ sr_tests nr) @
        concat (map declared_order (filter (\<lambda>c. \<not> s_skip c \<and> (\<not> ho \<or> s_only c)) rest))"
        using "3.IH"(4) [OF _ _ n [symmetric] refl] False rest by blast
      ultimately show ?thesis using False by auto
    qed
  qed
qed

lemma runSuites_omit:
  "s_skip c \<or> (ho \<and> \<not> s_only c) \<Longrightarrow>
   runSuites ho n (c # ss) rs w = runSuites ho n ss rs w"
  by auto

lemma runRootSuites_omit:
  "s_skip c \<Longrightarrow> runRootSuites (c # ss) rs w = runRootSuites ss rs w"
  by simp

lemma runSuites_splice:
  "runSuites ho n ss rs w = (Inr rs', w') \<Longrightarrow>
   \<exists>nested. rs' = rs @ concat nested \<and>
     list_all2 (\<lambda>c res. \<exists>wc wc' rc. runSuite c n wc = (Inr rc, wc') \<and> res = sr_tests rc)
       (filter (\<lambda>c. \<not> s_skip c \<and> (\<not> ho \<or> s_only c)) ss) nested"
proof (induction ss arbitrary: rs w)
  case Nil
  then show ?case by simp
next
  case (Cons c ss)
  show ?case
  proof (cases "s_skip c \<or> (ho \<and> \<not> s_only c)")
    case True
    have "runSuites ho n ss rs w = (Inr rs', w')"
      using Cons.prems unfolding runSuites_omit [OF True] .
    from Cons.IH [OF this] True show ?thesis by auto
  next
    case False
    then obtain rc w1 where
      c: "runSuite c n w = (Inr rc, w1)"
      and rest: "runSuites ho n ss (rs @ sr_tests rc) w1 = (Inr rs', w')"
      using Cons.prems by (auto split: prod.splits sum.splits)
    from Cons.IH [OF rest] obtain nested where
      n: "rs' = (rs @ sr_tests rc) @ concat nested"
      "list_all2 (\<lambda>c res. \<exists>wc wc' rc. runSuite c n wc = (Inr rc, wc') \<and> res = sr_tests rc)
        (filter (\<lambda>c. \<not> s_skip c \<and> (\<not> ho \<or> s_only c)) ss) nested"
      by blast
    have "rs' = rs @ concat (sr_tests rc # nested)"
      using n(1) by simp
    moreover have "list_all2
        (\<lambda>c res. \<exists>wc wc' rc. runSuite c n wc = (Inr rc, wc') \<and> res = sr_tests rc)
        (filter (\<lambda>c. \<not> s_skip c \<and> (\<not> ho \<or> s_only c)) (c # ss)) (sr_tests rc # nested)"
      using False n(2) c by auto
    ultimately show ?thesis by blast
  qed
qed

lemma runRootSuites_results:
  "runRootSuites ss rs w = (Inr rs', w') \<Longrightarrow>
   \<exists>new. rs' = rs @ new \<and>
     list_all2 (\<lambda>s r. \<exists>ws ws'. runSuite s [] ws = (Inr r, ws'))
       (filter (\<lambda>s. \<not> s_skip s) ss) new"
proof (induction ss arbitrary: rs w)
  case Nil
  then show ?case by simp
next
  case (Cons c ss)
  show ?case
  proof (cases "s_skip c")
    case True
    have "runRootSuites ss rs w = (Inr rs', w')"
      using Cons.prems unfolding runRootSuites_omit [OF True] .
    from Cons.IH [OF this] True show ?thesis by auto
  next
    case False
    then obtain rc w1 where
      c: "runSuite c [] w = (Inr rc, w1)"
      and rest: "runRootSuites ss (rs @ [rc]) w1 = (Inr rs', w')"
      using Cons.prems by (auto split: prod.splits sum.splits)
    from Cons.IH [OF rest] obtain new where
      n: "rs' = (rs @ [rc]) @ new"
      "list_all2 (\<lambda>s r. \<exists>ws ws'. runSuite s [] ws = (Inr r, ws'))
        (filter (\<lambda>s. \<not> s_skip s) ss) new"
      by blast
    have "rs' = rs @ (rc # new)"
      using n(1) by simp
    moreover have "list_all2 (\<lambda>s r. \<exists>ws ws'. runSuite s [] ws = (Inr r, ws'))
        (filter (\<lambda>s. \<not> s_skip s) (c # ss)) (rc # new)"
      using False n(2) c by auto
    ultimately show ?thesis by blast
  qed
qed

text \<open>
  C2. The result list of a suite is the results of its direct tests, in declared order,
  followed by the result lists of its direct child suites that are not omitted, in
  declared order, each spliced whole; over the whole tree the names come in
  \<open>declared_order\<close>. \<open>runAllTests\<close> returns one result per root suite that is not
  skipped, in order, and none for a nested suite.
\<close>

theorem results_in_declaration_order:
  "(runSuite suite parentName w = (Inr r, w') \<longrightarrow>
      (\<exists>direct nested.
          sr_tests r = direct @ concat nested
        \<and> map r_name direct =
            map t_name (filter (\<lambda>t. t_skip t \<or> \<not> hasOnly suite \<or> t_only t) (s_tests suite))
        \<and> list_all2
            (\<lambda>c res. \<exists>wc wc' rc.
                runSuite c (fullName parentName suite) wc = (Inr rc, wc') \<and> res = sr_tests rc)
            (filter (\<lambda>c. \<not> s_skip c \<and> (\<not> hasOnly suite \<or> s_only c)) (s_suites suite)) nested)
      \<and> map r_name (sr_tests r) = declared_order suite)
   \<and> (runAllTests roots wr = (Inr rs, wr') \<longrightarrow>
        list_all2 (\<lambda>s r. \<exists>ws ws'. runSuite s [] ws = (Inr r, ws') \<and>
                          map r_name (sr_tests r) = declared_order s)
          (filter (\<lambda>s. \<not> s_skip s) roots) rs)"
proof (intro conjI impI)
  assume run: "runSuite suite parentName w = (Inr r, w')"
  obtain w1 where ba: "runHooks (s_beforeAll suite) w = (Inr (), w1)"
    using run by (subst (asm) runSuite.simps) (auto split: prod.splits sum.splits)
  obtain direct w2 where
    ts: "runTests suite (hasOnly suite) (s_tests suite) [] w1 = (direct, w2)"
    by (cases "runTests suite (hasOnly suite) (s_tests suite) [] w1")
  obtain results' w3 where
    ns: "runSuites (hasOnly suite) (fullName parentName suite) (s_suites suite) direct w2
           = (Inr results', w3)"
    and r: "sr_tests r = results'"
    using run ba ts by (subst (asm) runSuite.simps) (auto split: prod.splits sum.splits)
  from runSuites_splice [OF ns] obtain nested where
    n: "results' = direct @ concat nested"
    "list_all2
       (\<lambda>c res. \<exists>wc wc' rc.
           runSuite c (fullName parentName suite) wc = (Inr rc, wc') \<and> res = sr_tests rc)
       (filter (\<lambda>c. \<not> s_skip c \<and> (\<not> hasOnly suite \<or> s_only c)) (s_suites suite)) nested"
    by blast
  have d: "map r_name direct =
      map t_name (filter (\<lambda>t. t_skip t \<or> \<not> hasOnly suite \<or> t_only t) (s_tests suite))"
    using runTests_names [of suite "hasOnly suite" "s_tests suite" "[]" w1] ts by simp
  show "\<exists>direct nested.
          sr_tests r = direct @ concat nested
        \<and> map r_name direct =
            map t_name (filter (\<lambda>t. t_skip t \<or> \<not> hasOnly suite \<or> t_only t) (s_tests suite))
        \<and> list_all2
            (\<lambda>c res. \<exists>wc wc' rc.
                runSuite c (fullName parentName suite) wc = (Inr rc, wc') \<and> res = sr_tests rc)
            (filter (\<lambda>c. \<not> s_skip c \<and> (\<not> hasOnly suite \<or> s_only c)) (s_suites suite)) nested"
    using r n d by blast
  show "map r_name (sr_tests r) = declared_order suite"
    using runSuite_runSuites_names(1) run by blast
next
  assume "runAllTests roots wr = (Inr rs, wr')"
  then have "runRootSuites roots [] wr = (Inr rs, wr')"
    by (simp add: runAllTests_def)
  from runRootSuites_results [OF this]
  have "list_all2 (\<lambda>s r. \<exists>ws ws'. runSuite s [] ws = (Inr r, ws'))
          (filter (\<lambda>s. \<not> s_skip s) roots) rs"
    by simp
  then show "list_all2 (\<lambda>s r. \<exists>ws ws'. runSuite s [] ws = (Inr r, ws') \<and>
                          map r_name (sr_tests r) = declared_order s)
          (filter (\<lambda>s. \<not> s_skip s) roots) rs"
    by (rule list_all2_mono) (use runSuite_runSuites_names(1) in blast)
qed

lemma runSuite_direct_only:
  "runSuite suite parentName w =
     (case runHooks (s_beforeAll suite) w of
        (Inl e, w1) \<Rightarrow> (Inl e, w1)
      | (Inr u, w1) \<Rightarrow>
          (case runTests suite
                  ((\<exists>t\<in>set (s_tests suite). t_only t) \<or> (\<exists>c\<in>set (s_suites suite). s_only c))
                  (s_tests suite) [] w1 of
             (results, w2) \<Rightarrow>
               (case runSuites
                       ((\<exists>t\<in>set (s_tests suite). t_only t) \<or>
                        (\<exists>c\<in>set (s_suites suite). s_only c))
                       (fullName parentName suite) (s_suites suite) results w2 of
                  (Inl e, w3) \<Rightarrow> (Inl e, w3)
                | (Inr results', w3) \<Rightarrow>
                    (case runHooks (s_afterAll suite) w3 of
                       (Inl e, w4) \<Rightarrow> (Inl e, w4)
                     | (Inr u, w4) \<Rightarrow>
                         (Inr \<lparr>sr_name = fullName parentName suite,
                               sr_tests = results',
                               sr_passed = length (filter r_passed results'),
                               sr_failed = length (filter (\<lambda>r. \<not> r_passed r) results'),
                               sr_skipped = length (filter t_skip (s_tests suite)),
                               sr_duration = clock w4 - clock w\<rparr>, w4)))))"
  by (subst runSuite.simps) (simp only: hasOnly_iff Let_def)

lemma runTests_at:
  "\<not> t_skip t \<Longrightarrow>
   runTests suite ho (pre @ t # post) rs wa =
     (case runTests suite ho pre rs wa of
        (rs1, w1) \<Rightarrow>
          (if ho \<and> \<not> t_only t then runTests suite ho post rs1 w1
           else (case runTest t suite w1 of
                   (r, w2) \<Rightarrow> runTests suite ho post (rs1 @ [r]) w2)))"
  by (simp add: runTests_append split: prod.splits)

lemma runSuites_at:
  "\<not> s_skip c \<Longrightarrow>
   runSuites ho n (spre @ c # spost) rs wa =
     (case runSuites ho n spre rs wa of
        (Inl e, w1) \<Rightarrow> (Inl e, w1)
      | (Inr rs1, w1) \<Rightarrow>
          (if ho \<and> \<not> s_only c then runSuites ho n spost rs1 w1
           else (case runSuite c n w1 of
                   (Inl e, w2) \<Rightarrow> (Inl e, w2)
                 | (Inr r, w2) \<Rightarrow> runSuites ho n spost (rs1 @ sr_tests r) w2)))"
  by (simp add: runSuites_append split: prod.splits sum.splits)

text \<open>
  C1. Only-mode of a suite is active exactly when one of its direct tests or one of its
  direct child suites has the only flag. \<open>runSuite\<close> hands this flag, and nothing from
  deeper in the tree, to the loop over its tests and to the loop over its child suites.
  In either loop a test or child suite that is not skipped is left out when the flag is
  set and it is not only, and is run otherwise; so when no direct child is only, nothing
  is left out on account of only-mode, whatever flags sit further down. When the flag
  is set, the run of the suite is the run of the suite with every direct test that is
  neither only nor skip, and every direct child suite that is not only, deleted: the same
  result list and the same effects, so none of them is executed or recorded.
\<close>

theorem only_mode_selection:
  "(hasOnly suite \<longleftrightarrow>
      (\<exists>t\<in>set (s_tests suite). t_only t) \<or> (\<exists>c\<in>set (s_suites suite). s_only c))
   \<and> (hasOnly suite \<longrightarrow>
        runSuite suite parentName w =
        runSuite (Suite (s_name suite)
                    (filter (\<lambda>t. t_skip t \<or> t_only t) (s_tests suite))
                    (s_beforeEach suite) (s_afterEach suite)
                    (s_beforeAll suite) (s_afterAll suite)
                    (filter s_only (s_suites suite)) (s_skip suite) (s_only suite))
          parentName w)
   \<and> runSuite suite parentName w =
       (case runHooks (s_beforeAll suite) w of
          (Inl e, w1) \<Rightarrow> (Inl e, w1)
        | (Inr u, w1) \<Rightarrow>
            (case runTests suite
                    ((\<exists>t\<in>set (s_tests suite). t_only t) \<or>
                     (\<exists>c\<in>set (s_suites suite). s_only c))
                    (s_tests suite) [] w1 of
               (results, w2) \<Rightarrow>
                 (case runSuites
                         ((\<exists>t\<in>set (s_tests suite). t_only t) \<or>
                          (\<exists>c\<in>set (s_suites suite). s_only c))
                         (fullName parentName suite) (s_suites suite) results w2 of
                    (Inl e, w3) \<Rightarrow> (Inl e, w3)
                  | (Inr results', w3) \<Rightarrow>
                      (case runHooks (s_afterAll suite) w3 of
                         (Inl e, w4) \<Rightarrow> (Inl e, w4)
                       | (Inr u, w4) \<Rightarrow>
                           (Inr \<lparr>sr_name = fullName parentName suite,
                                 sr_tests = results',
                                 sr_passed = length (filter r_passed results'),
                                 sr_failed = length (filter (\<lambda>r. \<not> r_passed r) results'),
                                 sr_skipped = length (filter t_skip (s_tests suite)),
                                 sr_duration = clock w4 - clock w\<rparr>, w4)))))
   \<and> (\<not> t_skip t \<longrightarrow>
        runTests suite ho (pre @ t # post) rs wa =
          (case runTests suite ho pre rs wa of
             (rs1, w1) \<Rightarrow>
               (if ho \<and> \<not> t_only t then runTests suite ho post rs1 w1
                else (case runTest t suite w1 of
                        (r, w2) \<Rightarrow> runTests suite ho post (rs1 @ [r]) w2))))
   \<and> (\<not> s_skip c \<longrightarrow>
        runSuites ho n (spre @ c # spost) rs wa =
          (case runSuites ho n spre rs wa of
             (Inl e, w1) \<Rightarrow> (Inl e, w1)
           | (Inr rs1, w1) \<Rightarrow>
               (if ho \<and> \<not> s_only c then runSuites ho n spost rs1 w1
                else (case runSuite c n w1 of
                        (Inl e, w2) \<Rightarrow> (Inl e, w2)
                      | (Inr r, w2) \<Rightarrow> runSuites ho n spost (rs1 @ sr_tests r) w2))))"
  using hasOnly_iff [of suite] only_prune [of suite parentName w]
        runSuite_direct_only [of suite parentName w]
        runTests_at [of t suite ho pre post rs wa]
        runSuites_at [of c ho n spre spost rs wa]
  by (intro conjI impI) (assumption | blast)+

lemmas run_simps = runSuite.simps runTest_def runTest_try_def hasOnly_def fullName_def
  logs_def throws_def throws_on_rerun_def world0_def mk_test_def runAllTests_def

text \<open>
  A suite with one only test, one plain test, one skipped test, a plain child suite and
  an only child suite; and a suite \<open>G\<close> whose only flag sits on a grandchild: its
  own test \<open>x\<close> runs, and inside the child only \<open>y\<close> does.
\<close>

theorem only_mode_selection_witness:
  "hasOnly ex_only_suite
   \<and> ((\<exists>t\<in>set (s_tests ex_only_suite). t_only t) \<or>
      (\<exists>c\<in>set (s_suites ex_only_suite). s_only c))
   \<and> runSuite ex_only_suite [] world0 =
       runSuite (Suite ''S''
                  [mk_test ''b'' (logs ''b'') False True, mk_test ''c'' (logs ''c'') True False]
                  [logs ''before''] [logs ''after''] [] []
                  [Suite ''O'' [mk_test ''e'' (logs ''e'') False False] [] [] [] [] [] False True]
                  False False) [] world0
   \<and> user (snd (runSuite ex_only_suite [] world0)) = [''before'', ''b'', ''after'', ''e'']
   \<and> (case fst (runSuite ex_only_suite [] world0) of
         Inl _ \<Rightarrow> False
       | Inr r \<Rightarrow> map r_name (sr_tests r) = [''b'', ''c'', ''e''])
   \<and> \<not> hasOnly ex_grandchild_suite
   \<and> runSuite ex_grandchild_suite [] world0 =
       (Inr \<lparr>sr_name = ''G'',
             sr_tests =
               [\<lparr>r_name = ''x'', r_passed = True, r_error = None, r_duration = 1,
                 r_assertions = []\<rparr>,
                \<lparr>r_name = ''y'', r_passed = True, r_error = None, r_duration = 1,
                 r_assertions = []\<rparr>],
             sr_passed = 2, sr_failed = 0, sr_skipped = 0, sr_duration = 2\<rparr>,
        \<lparr>clock = 2, user = [''x'', ''y'']\<rparr>)
   \<and> \<not> t_skip (mk_test ''x'' (logs ''x'') False False)
   \<and> runTests ex_grandchild_suite False ([] @ mk_test ''x'' (logs ''x'') False False # [])
         [] world0 =
       ([\<lparr>r_name = ''x'', r_passed = True, r_error = None, r_duration = 1, r_assertions = []\<rparr>],
        \<lparr>clock = 1, user = [''x'']\<rparr>)
   \<and> runTests ex_grandchild_suite True ([] @ mk_test ''x'' (logs ''x'') False False # [])
         [] world0 = ([], world0)
   \<and> \<not> s_skip (Suite ''C'' [mk_test ''y'' (logs ''y'') False True] [] [] [] [] [] False False)
   \<and> runSuites False ''G''
         ([] @ Suite ''C'' [mk_test ''y'' (logs ''y'') False True] [] [] [] [] [] False False # [])
         [] world0 =
       (Inr [\<lparr>r_name = ''y'', r_passed = True, r_error = None, r_duration = 1,
              r_assertions = []\<rparr>],
        \<lparr>clock = 1, user = [''y'']\<rparr>)
   \<and> runSuites True ''G''
         ([] @ Suite ''C'' [mk_test ''y'' (logs ''y'') False True] [] [] [] [] [] False False # [])
         [] world0 = (Inr [], world0)"
proof -
  let ?x = "mk_test ''x'' (logs ''x'') False False :: string list Test"
  let ?C = "Suite ''C'' [mk_test ''y'' (logs ''y'') False True] [] [] [] [] [] False False
              :: string list Suite"
  have h: "hasOnly ex_only_suite"
    by (simp add: ex_only_suite_def hasOnly_def mk_test_def)
  have 1: "(\<exists>t\<in>set (s_tests ex_only_suite). t_only t) \<or>
      (\<exists>c\<in>set (s_suites ex_only_suite). s_only c)"
    using only_mode_selection [THEN conjunct1, of ex_only_suite] h by blast
  have 2: "runSuite ex_only_suite [] world0 =
       runSuite (Suite ''S''
                  [mk_test ''b'' (logs ''b'') False True, mk_test ''c'' (logs ''c'') True False]
                  [logs ''before''] [logs ''after''] [] []
                  [Suite ''O'' [mk_test ''e'' (logs ''e'') False False] [] [] [] [] [] False True]
                  False False) [] world0"
    using only_mode_selection [THEN conjunct2, THEN conjunct1, of ex_only_suite "[]" world0] h
    by (simp add: ex_only_suite_def mk_test_def)
  have 3: "user (snd (runSuite ex_only_suite [] world0)) = [''before'', ''b'', ''after'', ''e'']"
    by (simp add: ex_only_suite_def run_simps)
  have 4: "(case fst (runSuite ex_only_suite [] world0) of
         Inl _ \<Rightarrow> False
       | Inr r \<Rightarrow> map r_name (sr_tests r) = [''b'', ''c'', ''e''])"
    by (simp add: ex_only_suite_def run_simps)
  have 5: "\<not> hasOnly ex_grandchild_suite"
    using only_mode_selection [THEN conjunct1, of ex_grandchild_suite]
    by (simp add: ex_grandchild_suite_def mk_test_def)
  have 6: "runSuite ex_grandchild_suite [] world0 =
       (Inr \<lparr>sr_name = ''G'',
             sr_tests =
               [\<lparr>r_name = ''x'', r_passed = True, r_error = None, r_duration = 1,
                 r_assertions = []\<rparr>,
                \<lparr>r_name = ''y'', r_passed = True, r_error = None, r_duration = 1,
                 r_assertions = []\<rparr>],
             sr_passed = 2, sr_failed = 0, sr_skipped = 0, sr_duration = 2\<rparr>,
        \<lparr>clock = 2, user = [''x'', ''y'']\<rparr>)"
    by (subst only_mode_selection [THEN conjunct2, THEN conjunct2, THEN conjunct1])
       (simp add: ex_grandchild_suite_def run_simps)
  have 7: "\<not> t_skip ?x"
    by (simp add: mk_test_def)
  have 8: "runTests ex_grandchild_suite False ([] @ ?x # []) [] world0 =
       ([\<lparr>r_name = ''x'', r_passed = True, r_error = None, r_duration = 1, r_assertions = []\<rparr>],
        \<lparr>clock = 1, user = [''x'']\<rparr>)"
    by (subst only_mode_selection
                [THEN conjunct2, THEN conjunct2, THEN conjunct2, THEN conjunct1, rule_format,
                 OF 7])
       (simp add: ex_grandchild_suite_def run_simps)
  have 9: "runTests ex_grandchild_suite True ([] @ ?x # []) [] world0 = ([], world0)"
    by (subst only_mode_selection
                [THEN conjunct2, THEN conjunct2, THEN conjunct2, THEN conjunct1, rule_format,
                 OF 7])
       (simp add: mk_test_def)
  have 10: "\<not> s_skip ?C"
    by simp
  have 11: "runSuites False ''G'' ([] @ ?C # []) [] world0 =
       (Inr [\<lparr>r_name = ''y'', r_passed = True, r_error = None, r_duration = 1,
              r_assertions = []\<rparr>],
        \<lparr>clock = 1, user = [''y'']\<rparr>)"
    by (subst only_mode_selection
                [THEN conjunct2, THEN conjunct2, THEN conjunct2, THEN conjunct2, rule_format,
                 OF 10])
       (simp add: run_simps)
  have 12: "runSuites True ''G'' ([] @ ?C # []) [] world0 = (Inr [], world0)"
    by (subst only_mode_selection
                [THEN conjunct2, THEN conjunct2, THEN conjunct2, THEN conjunct2, rule_format,
                 OF 10])
       simp
  from h 1 2 3 4 5 6 7 8 9 10 11 12 show ?thesis by (intro conjI)
qed

text \<open>The same suite, run alone and as the second root suite after a skipped one.\<close>

theorem results_in_declaration_order_witness:
  "\<exists>r w' rs w''.
      runSuite ex_only_suite [] world0 = (Inr r, w')
    \<and> map r_name (sr_tests r) = declared_order ex_only_suite
    \<and> declared_order ex_only_suite = [''b'', ''c'', ''e'']
    \<and> runAllTests [Suite ''skipped'' [] [] [] [] [] [] True False, ex_only_suite] world0
        = (Inr rs, w'')
    \<and> list_all2 (\<lambda>s r. \<exists>ws ws'. runSuite s [] ws = (Inr r, ws') \<and>
                         map r_name (sr_tests r) = declared_order s)
          [ex_only_suite] rs"
proof -
  obtain r w' where run: "runSuite ex_only_suite [] world0 = (Inr r, w')"
    by (simp add: ex_only_suite_def run_simps)
  obtain rs w'' where all:
    "runAllTests [Suite ''skipped'' [] [] [] [] [] [] True False, ex_only_suite] world0
       = (Inr rs, w'')"
    by (simp add: ex_only_suite_def run_simps)
  have order: "declared_order ex_only_suite = [''b'', ''c'', ''e'']"
    by (simp add: ex_only_suite_def hasOnly_def mk_test_def)
  have sk: "\<not> s_skip ex_only_suite"
    by (simp add: ex_only_suite_def)
  note inst = results_in_declaration_order
         [of ex_only_suite "[]" world0 r w'
             "[Suite ''skipped'' [] [] [] [] [] [] True False, ex_only_suite]" world0 rs w'']
  have names: "map r_name (sr_tests r) = declared_order ex_only_suite"
    using inst run by blast
  have roots: "list_all2 (\<lambda>s r. \<exists>ws ws'. runSuite s [] ws = (Inr r, ws') \<and>
                         map r_name (sr_tests r) = declared_order s)
          [ex_only_suite] rs"
    using inst all sk by simp
  from run names order all roots show ?thesis
    apply -
    apply (rule exI [of _ r])
    apply (rule exI [of _ w'])
    apply (rule exI [of _ rs])
    apply (rule exI [of _ w''])
    apply (intro conjI; assumption)
    done
qed

lemma runHooks_first_throw:
  "\<exists>ran rest. hs = ran @ rest
     \<and> snd (runHooks hs w) = fold (\<lambda>h w. snd (h w)) ran w
     \<and> (\<forall>i. Suc i < length ran \<longrightarrow>
           fst ((ran ! i) (fold (\<lambda>h w. snd (h w)) (take i ran) w)) = Inr ())
     \<and> (rest \<noteq> [] \<longrightarrow>
           ran \<noteq> [] \<and> (\<exists>e. fst (last ran (fold (\<lambda>h w. snd (h w)) (butlast ran) w)) = Inl e))
     \<and> (fst (runHooks hs w) = Inr () \<longrightarrow>
           rest = [] \<and>
           (\<forall>i<length ran. fst ((ran ! i) (fold (\<lambda>h w. snd (h w)) (take i ran) w)) = Inr ()))
     \<and> (\<forall>e. fst (runHooks hs w) = Inl e \<longrightarrow>
           ran \<noteq> [] \<and> fst (last ran (fold (\<lambda>h w. snd (h w)) (butlast ran) w)) = Inl e)"
proof (induction hs arbitrary: w)
  case Nil
  show ?case by simp
next
  case (Cons h hs)
  let ?step = "\<lambda>h w. snd (h w)"
  obtain out w' where h: "h w = (out, w')" by (cases "h w")
  show ?case
  proof (cases out)
    case (Inl e)
    have "h # hs = [h] @ hs" by simp
    moreover have "snd (runHooks (h # hs) w) = fold ?step [h] w"
      using h Inl by simp
    moreover have "\<forall>i. Suc i < length [h] \<longrightarrow>
           fst (([h] ! i) (fold ?step (take i [h]) w)) = Inr ()"
      by simp
    moreover have "hs \<noteq> [] \<longrightarrow>
           [h] \<noteq> [] \<and> (\<exists>e. fst (last [h] (fold ?step (butlast [h]) w)) = Inl e)"
      using h Inl by simp
    moreover have "fst (runHooks (h # hs) w) = Inr () \<longrightarrow>
           hs = [] \<and> (\<forall>i<length [h]. fst (([h] ! i) (fold ?step (take i [h]) w)) = Inr ())"
      using h Inl by simp
    moreover have "\<forall>e. fst (runHooks (h # hs) w) = Inl e \<longrightarrow>
        [h] \<noteq> [] \<and> fst (last [h] (fold ?step (butlast [h]) w)) = Inl e"
      using h Inl by simp
    ultimately show ?thesis by blast
  next
    case (Inr u)
    from Cons [of w'] obtain ran rest where
      r: "hs = ran @ rest"
      "snd (runHooks hs w') = fold ?step ran w'"
      "\<forall>i. Suc i < length ran \<longrightarrow> fst ((ran ! i) (fold ?step (take i ran) w')) = Inr ()"
      "rest \<noteq> [] \<longrightarrow> ran \<noteq> [] \<and> (\<exists>e. fst (last ran (fold ?step (butlast ran) w')) = Inl e)"
      "fst (runHooks hs w') = Inr () \<longrightarrow>
         rest = [] \<and> (\<forall>i<length ran. fst ((ran ! i) (fold ?step (take i ran) w')) = Inr ())"
      "\<forall>e. fst (runHooks hs w') = Inl e \<longrightarrow>
           ran \<noteq> [] \<and> fst (last ran (fold ?step (butlast ran) w')) = Inl e"
      by blast
    have run: "runHooks (h # hs) w = runHooks hs w'"
      using h Inr by simp
    have hw: "fst (h w) = Inr ()" "snd (h w) = w'"
      using h Inr by simp_all
    have idx: "fst (((h # ran) ! i) (fold ?step (take i (h # ran)) w)) =
        (case i of 0 \<Rightarrow> Inr () | Suc j \<Rightarrow> fst ((ran ! j) (fold ?step (take j ran) w')))" for i
      using hw by (cases i) simp_all
    have "h # hs = (h # ran) @ rest" using r(1) by simp
    moreover have "snd (runHooks (h # hs) w) = fold ?step (h # ran) w"
      using run r(2) h by simp
    moreover have "\<forall>i. Suc i < length (h # ran) \<longrightarrow>
         fst (((h # ran) ! i) (fold ?step (take i (h # ran)) w)) = Inr ()"
    proof (intro allI impI)
      fix i assume "Suc i < length (h # ran)"
      then show "fst (((h # ran) ! i) (fold ?step (take i (h # ran)) w)) = Inr ()"
        unfolding idx using r(3) by (cases i) simp_all
    qed
    moreover have "rest \<noteq> [] \<longrightarrow>
         h # ran \<noteq> [] \<and>
         (\<exists>e. fst (last (h # ran) (fold ?step (butlast (h # ran)) w)) = Inl e)"
      using r(4) hw by auto
    moreover have "fst (runHooks (h # hs) w) = Inr () \<longrightarrow>
         rest = [] \<and>
         (\<forall>i<length (h # ran).
            fst (((h # ran) ! i) (fold ?step (take i (h # ran)) w)) = Inr ())"
    proof (intro impI conjI allI)
      assume a: "fst (runHooks (h # hs) w) = Inr ()"
      then show "rest = []" using run r(5) by simp
      fix i assume "i < length (h # ran)"
      then show "fst (((h # ran) ! i) (fold ?step (take i (h # ran)) w)) = Inr ()"
        unfolding idx using a run r(5) by (cases i) simp_all
    qed
    moreover have "\<forall>e. fst (runHooks (h # hs) w) = Inl e \<longrightarrow>
        h # ran \<noteq> [] \<and>
        fst (last (h # ran) (fold ?step (butlast (h # ran)) w)) = Inl e"
      using run r(6) h by auto
    ultimately show ?thesis by blast
  qed
qed

lemma runTest_catch:
  "runTest_try t suite w = (Inl e, wx) \<Longrightarrow>
   runTest t suite w =
     (\<lparr>r_name = t_name t, r_passed = False, r_error = Some e,
       r_duration = clock (snd (runHooks (s_afterEach suite) wx)) - clock w,
       r_assertions = []\<rparr>,
      snd (runHooks (s_afterEach suite) wx))"
  by (simp add: runTest_def Let_def)

text \<open>
  C3, as amended. When a before-each hook or the body of a test throws \<open>e\<close>, leaving
  the world \<open>wx\<close>, the after-each hooks are run afterwards in order up to and including
  the first one that throws (all of them when none throws); the error of this pass is
  discarded, and the result has \<open>passed = false\<close> and carries \<open>e\<close>. In the statement
  \<open>ran\<close> is the hooks that were run and \<open>rest\<close> those that were not: the world after
  the test is \<open>wx\<close> with the hooks of \<open>ran\<close> applied in order, every hook of \<open>ran\<close>
  but its last returned, and hooks are left over only when the last hook run threw.
\<close>

theorem failed_test_cleanup:
  assumes "runHooks (s_beforeEach suite) w = (Inl e, wx) \<or>
           (\<exists>w1. runHooks (s_beforeEach suite) w = (Inr (), w1) \<and> t_fn t w1 = (Inl e, wx))"
  shows "runTest t suite w =
           (\<lparr>r_name = t_name t, r_passed = False, r_error = Some e,
             r_duration = clock (snd (runHooks (s_afterEach suite) wx)) - clock w,
             r_assertions = []\<rparr>,
            snd (runHooks (s_afterEach suite) wx))
       \<and> (\<exists>ran rest. s_afterEach suite = ran @ rest
             \<and> snd (runTest t suite w) = fold (\<lambda>h w. snd (h w)) ran wx
             \<and> (\<forall>i. Suc i < length ran \<longrightarrow>
                   fst ((ran ! i) (fold (\<lambda>h w. snd (h w)) (take i ran) wx)) = Inr ())
             \<and> (rest \<noteq> [] \<longrightarrow>
                   ran \<noteq> [] \<and>
                   (\<exists>e'. fst (last ran (fold (\<lambda>h w. snd (h w)) (butlast ran) wx)) = Inl e'))
             \<and> (fst (runHooks (s_afterEach suite) wx) = Inr () \<longrightarrow>
                   rest = [] \<and>
                   (\<forall>i<length ran.
                      fst ((ran ! i) (fold (\<lambda>h w. snd (h w)) (take i ran) wx)) = Inr ()))
             \<and> (\<forall>e'. fst (runHooks (s_afterEach suite) wx) = Inl e' \<longrightarrow>
                   ran \<noteq> [] \<and>
                   fst (last ran (fold (\<lambda>h w. snd (h w)) (butlast ran) wx)) = Inl e'))"
proof -
  have "runTest_try t suite w = (Inl e, wx)"
    using assms by (auto simp: runTest_try_def)
  then have r: "runTest t suite w =
           (\<lparr>r_name = t_name t, r_passed = False, r_error = Some e,
             r_duration = clock (snd (runHooks (s_afterEach suite) wx)) - clock w,
             r_assertions = []\<rparr>,
            snd (runHooks (s_afterEach suite) wx))"
    by (rule runTest_catch)
  then have s: "snd (runTest t suite w) = snd (runHooks (s_afterEach suite) wx)"
    by simp
  show ?thesis
    using r runHooks_first_throw [of "s_afterEach suite" wx] unfolding s by blast
qed

text \<open>A test whose body throws, in a suite whose second after-each hook throws.\<close>

theorem failed_test_cleanup_witness:
  "(\<exists>w1. runHooks (s_beforeEach ex_after_suite) world0 = (Inr (), w1) \<and>
          t_fn (mk_test ''t'' (throws ''body'') False False) w1
            = (Inl (Error ''body''), \<lparr>clock = 2, user = [''before'', ''body'']\<rparr>))
   \<and> runTest (mk_test ''t'' (throws ''body'') False False) ex_after_suite world0 =
       (\<lparr>r_name = ''t'', r_passed = False, r_error = Some (Error ''body''),
         r_duration = 4, r_assertions = []\<rparr>,
        \<lparr>clock = 4, user = [''before'', ''body'', ''h1'', ''h2'']\<rparr>)"
proof -
  have h: "\<exists>w1. runHooks (s_beforeEach ex_after_suite) world0 = (Inr (), w1) \<and>
          t_fn (mk_test ''t'' (throws ''body'') False False) w1
            = (Inl (Error ''body''), \<lparr>clock = 2, user = [''before'', ''body'']\<rparr>)"
    by (simp add: ex_after_suite_def run_simps)
  have c: "snd (runHooks (s_afterEach ex_after_suite) \<lparr>clock = 2, user = [''before'', ''body'']\<rparr>)
      = \<lparr>clock = 4, user = [''before'', ''body'', ''h1'', ''h2'']\<rparr>"
    by (simp add: ex_after_suite_def run_simps)
  have n: "t_name (mk_test ''t'' (throws ''body'') False False) = ''t''"
    by (simp add: mk_test_def)
  from failed_test_cleanup [of ex_after_suite world0 "Error ''body''"
         "\<lparr>clock = 2, user = [''before'', ''body'']\<rparr>"
         "mk_test ''t'' (throws ''body'') False False"] h
  have "runTest (mk_test ''t'' (throws ''body'') False False) ex_after_suite world0 =
       (\<lparr>r_name = ''t'', r_passed = False, r_error = Some (Error ''body''),
         r_duration = 4, r_assertions = []\<rparr>,
        \<lparr>clock = 4, user = [''before'', ''body'', ''h1'', ''h2'']\<rparr>)"
    unfolding c n by (simp add: world0_def)
  with h show ?thesis by blast
qed

text \<open>
  C3 as stated fails: the body throws, the first after-each hook throws in the cleanup
  pass, and the second after-each hook (\<open>released\<close>) is never run.
\<close>

theorem all_after_each_run_counterexample:
  "t_fn (mk_test ''t'' (throws ''body'') False False) world0
     = (Inl (Error ''body''), \<lparr>clock = 1, user = [''body'']\<rparr>)
   \<and> s_afterEach ex_cleanup_suite = [throws ''cleanup'', logs ''released'']
   \<and> user (snd (runTest (mk_test ''t'' (throws ''body'') False False) ex_cleanup_suite world0))
       = [''body'', ''cleanup'']"
  by (simp add: ex_cleanup_suite_def run_simps)

text \<open>
  C5. A test whose skip flag is set, wherever it stands among the tests of a suite, adds
  the record \<open>passed = true\<close>, \<open>duration = 0\<close>, no error, and leaves the world as it
  found it: the tests after it start from the state the tests before it left, so neither
  its body nor a before-each or after-each hook ran for it.
\<close>

theorem skipped_test_recorded_not_run:
  "t_skip t \<Longrightarrow>
   runTests suite ho (pre @ t # post) results w =
     (case runTests suite ho pre results w of
        (results1, w1) \<Rightarrow>
          runTests suite ho post
            (results1 @ [\<lparr>r_name = t_name t, r_passed = True, r_error = None,
                           r_duration = 0, r_assertions = []\<rparr>]) w1)"
  by (simp add: runTests_append split: prod.splits)

text \<open>
  A skipped test between two tests that run: its label \<open>pending\<close> is not in the log.
\<close>

theorem skipped_test_recorded_not_run_witness:
  "t_skip (mk_test ''pending'' (logs ''pending'') True False)
   \<and> runTests ex_skip_suite False
       ([mk_test ''first'' (logs ''first'') False False] @
        mk_test ''pending'' (logs ''pending'') True False #
        [mk_test ''last'' (logs ''last'') False False]) [] world0 =
      ([\<lparr>r_name = ''first'', r_passed = True, r_error = None, r_duration = 3, r_assertions = []\<rparr>,
        \<lparr>r_name = ''pending'', r_passed = True, r_error = None, r_duration = 0, r_assertions = []\<rparr>,
        \<lparr>r_name = ''last'', r_passed = True, r_error = None, r_duration = 3, r_assertions = []\<rparr>],
       \<lparr>clock = 6, user = [''before'', ''first'', ''after'', ''before'', ''last'', ''after'']\<rparr>)"
proof -
  have sk: "t_skip (mk_test ''pending'' (logs ''pending'') True False)"
    by (simp add: mk_test_def)
  from skipped_test_recorded_not_run
         [OF sk, of ex_skip_suite False "[mk_test ''first'' (logs ''first'') False False]"
            "[mk_test ''last'' (logs ''last'') False False]" "[]" world0]
  have "runTests ex_skip_suite False
       ([mk_test ''first'' (logs ''first'') False False] @
        mk_test ''pending'' (logs ''pending'') True False #
        [mk_test ''last'' (logs ''last'') False False]) [] world0 =
      ([\<lparr>r_name = ''first'', r_passed = True, r_error = None, r_duration = 3, r_assertions = []\<rparr>,
        \<lparr>r_name = ''pending'', r_passed = True, r_error = None, r_duration = 0, r_assertions = []\<rparr>,
        \<lparr>r_name = ''last'', r_passed = True, r_error = None, r_duration = 3, r_assertions = []\<rparr>],
       \<lparr>clock = 6, user = [''before'', ''first'', ''after'', ''before'', ''last'', ''after'']\<rparr>)"
    by (simp add: ex_skip_suite_def run_simps)
  with sk show ?thesis by blast
qed

text \<open>
  C10, as amended. When the before-each hooks and the body return, leaving \<open>w2\<close>, and
  an after-each hook then throws \<open>e\<close>, leaving \<open>w3\<close>, the test is recorded as failed
  with \<open>e\<close>, and the catch path starts the after-each list again from its first hook,
  running it up to and including the first hook that throws in that second pass (its
  error is discarded). In the statement \<open>ran1\<close> is the hooks run in the first pass, the
  last of which threw \<open>e\<close>, and \<open>ran\<close> the hooks run in the second pass, from \<open>w3\<close>:
  every hook of \<open>ran\<close> but its last returned, and hooks are left over (\<open>rest\<close>) only
  when the last hook run threw. When the hooks before the one that threw return again
  in the second pass, each of them has run twice and the pass goes on from the hook that
  threw.
\<close>

theorem after_each_failure_reruns_cleanup:
  assumes "runHooks (s_beforeEach suite) w = (Inr (), w1)"
    and "t_fn t w1 = (Inr (), w2)"
    and "runHooks (s_afterEach suite) w2 = (Inl e, w3)"
  shows "runTest t suite w =
           (\<lparr>r_name = t_name t, r_passed = False, r_error = Some e,
             r_duration = clock (snd (runHooks (s_afterEach suite) w3)) - clock w,
             r_assertions = []\<rparr>,
            snd (runHooks (s_afterEach suite) w3))
       \<and> (s_afterEach suite = pre @ h # post \<and> runHooks pre w2 = (Inr (), wa) \<and>
          h wa = (Inl e, w3) \<and> runHooks pre w3 = (Inr (), wb) \<longrightarrow>
            snd (runHooks (s_afterEach suite) w3) = snd (runHooks (h # post) wb))
       \<and> (\<exists>ran1 rest1. s_afterEach suite = ran1 @ rest1
             \<and> w3 = fold (\<lambda>h w. snd (h w)) ran1 w2
             \<and> (\<forall>i. Suc i < length ran1 \<longrightarrow>
                   fst ((ran1 ! i) (fold (\<lambda>h w. snd (h w)) (take i ran1) w2)) = Inr ())
             \<and> ran1 \<noteq> []
             \<and> fst (last ran1 (fold (\<lambda>h w. snd (h w)) (butlast ran1) w2)) = Inl e)
       \<and> (\<exists>ran rest. s_afterEach suite = ran @ rest
             \<and> snd (runTest t suite w) = fold (\<lambda>h w. snd (h w)) ran w3
             \<and> (\<forall>i. Suc i < length ran \<longrightarrow>
                   fst ((ran ! i) (fold (\<lambda>h w. snd (h w)) (take i ran) w3)) = Inr ())
             \<and> (rest \<noteq> [] \<longrightarrow>
                   ran \<noteq> [] \<and>
                   (\<exists>e'. fst (last ran (fold (\<lambda>h w. snd (h w)) (butlast ran) w3)) = Inl e')))"
proof -
  have "runTest_try t suite w = (Inl e, w3)"
    using assms by (simp add: runTest_try_def)
  then have r: "runTest t suite w =
           (\<lparr>r_name = t_name t, r_passed = False, r_error = Some e,
             r_duration = clock (snd (runHooks (s_afterEach suite) w3)) - clock w,
             r_assertions = []\<rparr>,
            snd (runHooks (s_afterEach suite) w3))"
    by (rule runTest_catch)
  then have s: "snd (runTest t suite w) = snd (runHooks (s_afterEach suite) w3)"
    by simp
  have split: "s_afterEach suite = pre @ h # post \<and> runHooks pre w2 = (Inr (), wa) \<and>
          h wa = (Inl e, w3) \<and> runHooks pre w3 = (Inr (), wb) \<longrightarrow>
            snd (runHooks (s_afterEach suite) w3) = snd (runHooks (h # post) wb)"
    by (simp add: runHooks_append)
  have first: "\<exists>ran1 rest1. s_afterEach suite = ran1 @ rest1
             \<and> w3 = fold (\<lambda>h w. snd (h w)) ran1 w2
             \<and> (\<forall>i. Suc i < length ran1 \<longrightarrow>
                   fst ((ran1 ! i) (fold (\<lambda>h w. snd (h w)) (take i ran1) w2)) = Inr ())
             \<and> ran1 \<noteq> []
             \<and> fst (last ran1 (fold (\<lambda>h w. snd (h w)) (butlast ran1) w2)) = Inl e"
    using runHooks_first_throw [of "s_afterEach suite" w2] assms(3) by auto
  have second: "\<exists>ran rest. s_afterEach suite = ran @ rest
             \<and> snd (runTest t suite w) = fold (\<lambda>h w. snd (h w)) ran w3
             \<and> (\<forall>i. Suc i < length ran \<longrightarrow>
                   fst ((ran ! i) (fold (\<lambda>h w. snd (h w)) (take i ran) w3)) = Inr ())
             \<and> (rest \<noteq> [] \<longrightarrow>
                   ran \<noteq> [] \<and>
                   (\<exists>e'. fst (last ran (fold (\<lambda>h w. snd (h w)) (butlast ran) w3)) = Inl e'))"
    using runHooks_first_throw [of "s_afterEach suite" w3] unfolding s by blast
  from r split first second show ?thesis by (intro conjI)
qed

text \<open>
  The second of three after-each hooks throws: \<open>h1\<close> and \<open>h2\<close> run twice,
  \<open>h3\<close> never.
\<close>

theorem after_each_failure_reruns_cleanup_witness:
  "runHooks (s_beforeEach ex_after_suite) world0 = (Inr (), \<lparr>clock = 1, user = [''before'']\<rparr>)
   \<and> t_fn (mk_test ''t'' (logs ''body'') False False) \<lparr>clock = 1, user = [''before'']\<rparr>
       = (Inr (), \<lparr>clock = 2, user = [''before'', ''body'']\<rparr>)
   \<and> runHooks (s_afterEach ex_after_suite) \<lparr>clock = 2, user = [''before'', ''body'']\<rparr>
       = (Inl (Error ''h2''), \<lparr>clock = 4, user = [''before'', ''body'', ''h1'', ''h2'']\<rparr>)
   \<and> s_afterEach ex_after_suite = [logs ''h1''] @ throws ''h2'' # [logs ''h3'']
   \<and> runHooks [logs ''h1''] \<lparr>clock = 2, user = [''before'', ''body'']\<rparr>
       = (Inr (), \<lparr>clock = 3, user = [''before'', ''body'', ''h1'']\<rparr>)
   \<and> throws ''h2'' \<lparr>clock = 3, user = [''before'', ''body'', ''h1'']\<rparr>
       = (Inl (Error ''h2''), \<lparr>clock = 4, user = [''before'', ''body'', ''h1'', ''h2'']\<rparr>)
   \<and> runHooks [logs ''h1''] \<lparr>clock = 4, user = [''before'', ''body'', ''h1'', ''h2'']\<rparr>
       = (Inr (), \<lparr>clock = 5, user = [''before'', ''body'', ''h1'', ''h2'', ''h1'']\<rparr>)
   \<and> runTest (mk_test ''t'' (logs ''body'') False False) ex_after_suite world0 =
       (\<lparr>r_name = ''t'', r_passed = False, r_error = Some (Error ''h2''),
         r_duration = 6, r_assertions = []\<rparr>,
        \<lparr>clock = 6, user = [''before'', ''body'', ''h1'', ''h2'', ''h1'', ''h2'']\<rparr>)"
proof -
  have 1: "runHooks (s_beforeEach ex_after_suite) world0
      = (Inr (), \<lparr>clock = 1, user = [''before'']\<rparr>)"
    by (simp add: ex_after_suite_def run_simps)
  have 2: "t_fn (mk_test ''t'' (logs ''body'') False False) \<lparr>clock = 1, user = [''before'']\<rparr>
       = (Inr (), \<lparr>clock = 2, user = [''before'', ''body'']\<rparr>)"
    by (simp add: run_simps)
  have 3: "runHooks (s_afterEach ex_after_suite) \<lparr>clock = 2, user = [''before'', ''body'']\<rparr>
       = (Inl (Error ''h2''), \<lparr>clock = 4, user = [''before'', ''body'', ''h1'', ''h2'']\<rparr>)"
    by (simp add: ex_after_suite_def run_simps)
  have 4: "s_afterEach ex_after_suite = [logs ''h1''] @ throws ''h2'' # [logs ''h3'']"
    by (simp add: ex_after_suite_def)
  have 5: "runHooks [logs ''h1''] \<lparr>clock = 2, user = [''before'', ''body'']\<rparr>
       = (Inr (), \<lparr>clock = 3, user = [''before'', ''body'', ''h1'']\<rparr>)"
    by (simp add: run_simps)
  have 6: "throws ''h2'' \<lparr>clock = 3, user = [''before'', ''body'', ''h1'']\<rparr>
       = (Inl (Error ''h2''), \<lparr>clock = 4, user = [''before'', ''body'', ''h1'', ''h2'']\<rparr>)"
    by (simp add: run_simps)
  have 7: "runHooks [logs ''h1''] \<lparr>clock = 4, user = [''before'', ''body'', ''h1'', ''h2'']\<rparr>
       = (Inr (), \<lparr>clock = 5, user = [''before'', ''body'', ''h1'', ''h2'', ''h1'']\<rparr>)"
    by (simp add: run_simps)
  have 8: "snd (runHooks (throws ''h2'' # [logs ''h3''])
              \<lparr>clock = 5, user = [''before'', ''body'', ''h1'', ''h2'', ''h1'']\<rparr>)
      = \<lparr>clock = 6, user = [''before'', ''body'', ''h1'', ''h2'', ''h1'', ''h2'']\<rparr>"
    by (simp add: run_simps)
  note inst = after_each_failure_reruns_cleanup [OF 1 2 3,
      of "[logs ''h1'']" "throws ''h2''" "[logs ''h3'']"
         "\<lparr>clock = 3, user = [''before'', ''body'', ''h1'']\<rparr>"
         "\<lparr>clock = 5, user = [''before'', ''body'', ''h1'', ''h2'', ''h1'']\<rparr>"]
  have c: "snd (runHooks (s_afterEach ex_after_suite)
                 \<lparr>clock = 4, user = [''before'', ''body'', ''h1'', ''h2'']\<rparr>)
      = \<lparr>clock = 6, user = [''before'', ''body'', ''h1'', ''h2'', ''h1'', ''h2'']\<rparr>"
    using inst 4 5 6 7 8 by simp
  have "runTest (mk_test ''t'' (logs ''body'') False False) ex_after_suite world0 =
       (\<lparr>r_name = ''t'', r_passed = False, r_error = Some (Error ''h2''),
         r_duration = 6, r_assertions = []\<rparr>,
        \<lparr>clock = 6, user = [''before'', ''body'', ''h1'', ''h2'', ''h1'', ''h2'']\<rparr>)"
    using inst unfolding c by (simp add: mk_test_def world0_def)
  with 1 2 3 4 5 6 7 show ?thesis by blast
qed

text \<open>
  C10 as stated fails: the third after-each hook throws; in the second pass the first
  hook throws, and the second hook \<open>h2\<close>, which precedes the one that failed, has run
  once only.
\<close>

theorem preceding_hooks_run_twice_counterexample:
  "runHooks (s_beforeEach ex_rerun_suite) world0 = (Inr (), world0)
   \<and> t_fn (mk_test ''t'' (logs ''body'') False False) world0
       = (Inr (), \<lparr>clock = 1, user = [''body'']\<rparr>)
   \<and> s_afterEach ex_rerun_suite = [throws_on_rerun ''h1'', logs ''h2'', throws ''h3'']
   \<and> runHooks (s_afterEach ex_rerun_suite) \<lparr>clock = 1, user = [''body'']\<rparr>
       = (Inl (Error ''h3''), \<lparr>clock = 4, user = [''body'', ''h1'', ''h2'', ''h3'']\<rparr>)
   \<and> user (snd (runTest (mk_test ''t'' (logs ''body'') False False) ex_rerun_suite world0))
       = [''body'', ''h1'', ''h2'', ''h3'', ''h1'']
   \<and> count_list
        (user (snd (runTest (mk_test ''t'' (logs ''body'') False False) ex_rerun_suite world0)))
        ''h2'' = 1"
  by (simp add: ex_rerun_suite_def run_simps)




section \<open>Properties of registration, the assertions and the call recorder\<close>

lemma toBe_expect: "toBe (expect v) e = Inr () \<longleftrightarrow> Object_is v e"
  by (simp add: toBe_def expect_def assert_def)

text \<open>
  C7 as stated fails: \<open>expect(0).toBe(-0)\<close> throws an \<open>AssertionError\<close>.
\<close>

theorem toBe_zero_counterexample:
  "toBe (expect js_pos_zero) js_neg_zero = Inl (AssertionError js_neg_zero js_pos_zero)"
  by (simp add: toBe_def expect_def assert_def js_pos_zero_def js_neg_zero_def isNaN_def)

text \<open>
  C7, as amended. \<open>toBe\<close> on two numbers passes exactly when both are NaN or they are
  the same bits: \<open>expect(NaN).toBe(NaN)\<close> passes, and positive and negative zero are
  told apart, so \<open>expect(0).toBe(-0)\<close> and \<open>expect(-0).toBe(0)\<close> fail.
\<close>

theorem toBe_same_value:
  "(toBe (expect (JNumber x)) (JNumber y) = Inr () \<longleftrightarrow> (isNaN x \<and> isNaN y) \<or> x = y)
   \<and> toBe (expect js_NaN) js_NaN = Inr ()
   \<and> toBe (expect js_pos_zero) js_neg_zero \<noteq> Inr ()
   \<and> toBe (expect js_neg_zero) js_pos_zero \<noteq> Inr ()"
  by (simp add: toBe_expect js_NaN_def js_pos_zero_def js_neg_zero_def isNaN_def)






lemma formatValue_primitive:
  "typeof v \<noteq> ''object'' \<or> v = JNull \<Longrightarrow> \<exists>shown. formatValue env v = Inr shown"
  by (cases v) auto












lemma pushSuite_fst: "fst (pushSuite suite r) = length (heap r)"
  by (simp add: pushSuite_def Let_def split: option.splits)

lemma pushSuite_current: "currentSuite (snd (pushSuite suite r)) = currentSuite r"
  by (simp add: pushSuite_def Let_def split: option.splits)

lemma pushSuite_length: "length (heap (snd (pushSuite suite r))) = Suc (length (heap r))"
  by (simp add: pushSuite_def Let_def split: option.splits)

lemma pushSuite_root:
  "currentSuite r = None \<Longrightarrow>
   rootSuites (snd (pushSuite suite r)) = rootSuites r @ [length (heap r)] \<and>
   heap (snd (pushSuite suite r)) = heap r @ [suite]"
  by (simp add: pushSuite_def Let_def)

lemma pushSuite_child:
  "currentSuite r = Some c \<Longrightarrow> c < length (heap r) \<Longrightarrow>
   rootSuites (snd (pushSuite suite r)) = rootSuites r \<and>
   heap (snd (pushSuite suite r)) ! length (heap r) = suite \<and>
   o_suites (heap (snd (pushSuite suite r)) ! c) = o_suites (heap r ! c) @ [length (heap r)]"
  by (simp add: pushSuite_def Let_def nth_append)

lemma entered_facts:
  fixes r :: "('u, 'z) registry_scheme"
  defines "entry \<equiv> \<lambda>suite. (snd (pushSuite suite r))\<lparr>currentSuite := Some (length (heap r))\<rparr>"
  shows "currentSuite (entry suite) = Some (length (heap r))
       \<and> length (heap (entry suite)) = Suc (length (heap r))
       \<and> (currentSuite r = None \<longrightarrow>
            rootSuites (entry suite) = rootSuites r @ [length (heap r)] \<and>
            heap (entry suite) = heap r @ [suite])
       \<and> (\<forall>c. currentSuite r = Some c \<longrightarrow> c < length (heap r) \<longrightarrow>
            rootSuites (entry suite) = rootSuites r \<and>
            heap (entry suite) ! length (heap r) = suite \<and>
            o_suites (heap (entry suite) ! c) = o_suites (heap r ! c) @ [length (heap r)])"
  unfolding entry_def
  using pushSuite_root [of r suite] pushSuite_child [of r _ suite]
  by (simp add: pushSuite_length)

lemma describe_entry:
  "describe name fn r =
     (fst (fn ((snd (pushSuite (newSuite name False False) r))
                 \<lparr>currentSuite := Some (length (heap r))\<rparr>)),
      (snd (fn ((snd (pushSuite (newSuite name False False) r))
                 \<lparr>currentSuite := Some (length (heap r))\<rparr>)))
        \<lparr>currentSuite := currentSuite r\<rparr>)"
  using pushSuite_fst [of "newSuite name False False" r]
        pushSuite_current [of "newSuite name False False" r]
  by (auto simp: describe_def Let_def split: prod.splits)

lemma describe_only_entry:
  "describe_only name fn r =
     (fst (fn ((snd (pushSuite (newSuite name False True) r))
                 \<lparr>currentSuite := Some (length (heap r))\<rparr>)),
      (snd (fn ((snd (pushSuite (newSuite name False True) r))
                 \<lparr>currentSuite := Some (length (heap r))\<rparr>)))
        \<lparr>currentSuite := currentSuite r\<rparr>)"
  using pushSuite_fst [of "newSuite name False True" r]
        pushSuite_current [of "newSuite name False True" r]
  by (auto simp: describe_only_def Let_def split: prod.splits)

text \<open>
  C6. \<open>describe\<close> and \<open>describe.only\<close> run the definition action in a registry
  (\<open>entry\<close>) where the new suite is allocated, appended to the root registry when
  there was no current suite and to the children of the current suite otherwise, and
  is the current suite; the outcome of the action, return or throw, is the outcome of
  the call, and in both cases the current-suite pointer is set back, so after the call
  it is what it was before. \<open>describe.skip\<close> only appends the suite and leaves the
  pointer alone.
\<close>

theorem describe_restores_current_suite:
  fixes r :: "('u, 'z) registry_scheme"
  shows
  "(\<exists>entry.
        currentSuite entry = Some (length (heap r))
      \<and> length (heap entry) = Suc (length (heap r))
      \<and> (currentSuite r = None \<longrightarrow>
           rootSuites entry = rootSuites r @ [length (heap r)] \<and>
           heap entry = heap r @ [newSuite name False False])
      \<and> (\<forall>c. currentSuite r = Some c \<longrightarrow> c < length (heap r) \<longrightarrow>
           rootSuites entry = rootSuites r \<and>
           heap entry ! length (heap r) = newSuite name False False \<and>
           o_suites (heap entry ! c) = o_suites (heap r ! c) @ [length (heap r)])
      \<and> (\<forall>fn. describe name fn r =
                  (fst (fn entry), (snd (fn entry))\<lparr>currentSuite := currentSuite r\<rparr>)))
   \<and> (\<exists>entry.
        currentSuite entry = Some (length (heap r))
      \<and> length (heap entry) = Suc (length (heap r))
      \<and> (currentSuite r = None \<longrightarrow>
           rootSuites entry = rootSuites r @ [length (heap r)] \<and>
           heap entry = heap r @ [newSuite name False True])
      \<and> (\<forall>c. currentSuite r = Some c \<longrightarrow> c < length (heap r) \<longrightarrow>
           rootSuites entry = rootSuites r \<and>
           heap entry ! length (heap r) = newSuite name False True \<and>
           o_suites (heap entry ! c) = o_suites (heap r ! c) @ [length (heap r)])
      \<and> (\<forall>fn. describe_only name fn r =
                  (fst (fn entry), (snd (fn entry))\<lparr>currentSuite := currentSuite r\<rparr>)))
   \<and> currentSuite (snd (describe name fn r)) = currentSuite r
   \<and> currentSuite (snd (describe_only name fn r)) = currentSuite r
   \<and> currentSuite (snd (describe_skip name fn r)) = currentSuite r
   \<and> fst (describe_skip name fn r) = Inr ()
   \<and> (currentSuite r = None \<longrightarrow>
        rootSuites (snd (describe_skip name fn r)) = rootSuites r @ [length (heap r)] \<and>
        heap (snd (describe_skip name fn r)) = heap r @ [newSuite name True False])
   \<and> (\<forall>c. currentSuite r = Some c \<longrightarrow> c < length (heap r) \<longrightarrow>
        rootSuites (snd (describe_skip name fn r)) = rootSuites r \<and>
        heap (snd (describe_skip name fn r)) ! length (heap r) = newSuite name True False \<and>
        o_suites (heap (snd (describe_skip name fn r)) ! c)
          = o_suites (heap r ! c) @ [length (heap r)])"
proof (intro conjI)
  show "\<exists>entry.
        currentSuite entry = Some (length (heap r))
      \<and> length (heap entry) = Suc (length (heap r))
      \<and> (currentSuite r = None \<longrightarrow>
           rootSuites entry = rootSuites r @ [length (heap r)] \<and>
           heap entry = heap r @ [newSuite name False False])
      \<and> (\<forall>c. currentSuite r = Some c \<longrightarrow> c < length (heap r) \<longrightarrow>
           rootSuites entry = rootSuites r \<and>
           heap entry ! length (heap r) = newSuite name False False \<and>
           o_suites (heap entry ! c) = o_suites (heap r ! c) @ [length (heap r)])
      \<and> (\<forall>fn. describe name fn r =
                  (fst (fn entry), (snd (fn entry))\<lparr>currentSuite := currentSuite r\<rparr>))"
    using entered_facts [of r "newSuite name False False"] describe_entry [of name _ r]
    by (intro exI [of _ "(snd (pushSuite (newSuite name False False) r))
                           \<lparr>currentSuite := Some (length (heap r))\<rparr>"]) blast
next
  show "\<exists>entry.
        currentSuite entry = Some (length (heap r))
      \<and> length (heap entry) = Suc (length (heap r))
      \<and> (currentSuite r = None \<longrightarrow>
           rootSuites entry = rootSuites r @ [length (heap r)] \<and>
           heap entry = heap r @ [newSuite name False True])
      \<and> (\<forall>c. currentSuite r = Some c \<longrightarrow> c < length (heap r) \<longrightarrow>
           rootSuites entry = rootSuites r \<and>
           heap entry ! length (heap r) = newSuite name False True \<and>
           o_suites (heap entry ! c) = o_suites (heap r ! c) @ [length (heap r)])
      \<and> (\<forall>fn. describe_only name fn r =
                  (fst (fn entry), (snd (fn entry))\<lparr>currentSuite := currentSuite r\<rparr>))"
    using entered_facts [of r "newSuite name False True"] describe_only_entry [of name _ r]
    by (intro exI [of _ "(snd (pushSuite (newSuite name False True) r))
                           \<lparr>currentSuite := Some (length (heap r))\<rparr>"]) blast
next
  show "currentSuite (snd (describe name fn r)) = currentSuite r"
    by (simp add: describe_entry)
next
  show "currentSuite (snd (describe_only name fn r)) = currentSuite r"
    by (simp add: describe_only_entry)
next
  show "currentSuite (snd (describe_skip name fn r)) = currentSuite r"
    by (simp add: describe_skip_def pushSuite_current)
next
  show "fst (describe_skip name fn r) = Inr ()"
    by (simp add: describe_skip_def)
next
  show "currentSuite r = None \<longrightarrow>
        rootSuites (snd (describe_skip name fn r)) = rootSuites r @ [length (heap r)] \<and>
        heap (snd (describe_skip name fn r)) = heap r @ [newSuite name True False]"
    using pushSuite_root [of r "newSuite name True False"]
    by (simp add: describe_skip_def)
next
  show "\<forall>c. currentSuite r = Some c \<longrightarrow> c < length (heap r) \<longrightarrow>
        rootSuites (snd (describe_skip name fn r)) = rootSuites r \<and>
        heap (snd (describe_skip name fn r)) ! length (heap r) = newSuite name True False \<and>
        o_suites (heap (snd (describe_skip name fn r)) ! c)
          = o_suites (heap r ! c) @ [length (heap r)]"
    using pushSuite_child [of r _ "newSuite name True False"]
    by (simp add: describe_skip_def)
qed

text \<open>
  A nested \<open>describe\<close> whose definition action registers a test and then throws.
\<close>

theorem describe_restores_current_suite_witness:
  "currentSuite ex_registry = None
   \<and> (\<forall>fn. describe ''Outer'' fn ex_registry =
              (fst (fn ex_entered), (snd (fn ex_entered))\<lparr>currentSuite := None\<rparr>))
   \<and> currentSuite ex_entered = Some 0 \<and> 0 < length (heap ex_entered)
   \<and> (\<exists>entry. rootSuites entry = [0]
         \<and> heap entry ! 1 = newSuite ''Inner'' False False
         \<and> o_suites (heap entry ! 0) = [1]
         \<and> describe ''Inner'' ex_failing_definition ex_entered =
             (fst (ex_failing_definition entry),
              (snd (ex_failing_definition entry))\<lparr>currentSuite := Some 0\<rparr>))
   \<and> describe ''Outer'' (describe ''Inner'' ex_failing_definition) ex_registry =
       (Inl (Error ''bad definition''),
        \<lparr>heap = [(newSuite ''Outer'' False False)\<lparr>o_suites := [1]\<rparr>,
                 (newSuite ''Inner'' False False)
                   \<lparr>o_tests := [\<lparr>t_name = ''t'', t_fn = logs ''t'', t_skip = False,
                                  t_only = False\<rparr>]\<rparr>],
          currentSuite = None, rootSuites = [0]\<rparr>)
   \<and> currentSuite (snd (describe ''Outer'' (describe ''Inner'' ex_failing_definition) ex_registry))
       = currentSuite ex_registry"
proof -
  have 1: "currentSuite ex_registry = None"
    by (simp add: ex_registry_def)
  have 2: "\<forall>fn. describe ''Outer'' fn ex_registry =
              (fst (fn ex_entered), (snd (fn ex_entered))\<lparr>currentSuite := None\<rparr>)"
  proof -
    from describe_restores_current_suite [THEN conjunct1, of ex_registry "''Outer''"]
    obtain entry :: "string list registry" where
      e: "currentSuite entry = Some (length (heap ex_registry))"
         "currentSuite ex_registry = None \<longrightarrow>
            rootSuites entry = rootSuites ex_registry @ [length (heap ex_registry)] \<and>
            heap entry = heap ex_registry @ [newSuite ''Outer'' False False]"
         "\<forall>fn. describe ''Outer'' fn ex_registry =
                  (fst (fn entry), (snd (fn entry))\<lparr>currentSuite := currentSuite ex_registry\<rparr>)"
      by auto
    have "entry = ex_entered"
      using e(1,2) 1 by (cases entry) (simp add: ex_entered_def ex_registry_def)
    with e(3) 1 show ?thesis by simp
  qed
  have 3: "currentSuite ex_entered = Some 0 \<and> 0 < length (heap ex_entered)"
    by (simp add: ex_entered_def)
  have 4: "\<exists>entry. rootSuites entry = [0]
         \<and> heap entry ! 1 = newSuite ''Inner'' False False
         \<and> o_suites (heap entry ! 0) = [1]
         \<and> describe ''Inner'' ex_failing_definition ex_entered =
             (fst (ex_failing_definition entry),
              (snd (ex_failing_definition entry))\<lparr>currentSuite := Some 0\<rparr>)"
  proof -
    from describe_restores_current_suite [THEN conjunct1, of ex_entered "''Inner''"]
    obtain entry :: "string list registry" where
      e: "\<forall>c. currentSuite ex_entered = Some c \<longrightarrow> c < length (heap ex_entered) \<longrightarrow>
            rootSuites entry = rootSuites ex_entered \<and>
            heap entry ! length (heap ex_entered) = newSuite ''Inner'' False False \<and>
            o_suites (heap entry ! c) =
              o_suites (heap ex_entered ! c) @ [length (heap ex_entered)]"
         "\<forall>fn. describe ''Inner'' fn ex_entered =
                  (fst (fn entry), (snd (fn entry))\<lparr>currentSuite := currentSuite ex_entered\<rparr>)"
      by auto
    from e(1) 3 have
      "rootSuites entry = rootSuites ex_entered \<and>
       heap entry ! length (heap ex_entered) = newSuite ''Inner'' False False \<and>
       o_suites (heap entry ! 0) = o_suites (heap ex_entered ! 0) @ [length (heap ex_entered)]"
      by blast
    then have "rootSuites entry = [0]
         \<and> heap entry ! 1 = newSuite ''Inner'' False False
         \<and> o_suites (heap entry ! 0) = [1]"
      by (simp add: ex_entered_def newSuite_def)
    moreover have "describe ''Inner'' ex_failing_definition ex_entered =
             (fst (ex_failing_definition entry),
              (snd (ex_failing_definition entry))\<lparr>currentSuite := Some 0\<rparr>)"
      using e(2) 3 by simp
    ultimately show ?thesis by blast
  qed
  have 5: "describe ''Outer'' (describe ''Inner'' ex_failing_definition) ex_registry =
       (Inl (Error ''bad definition''),
        \<lparr>heap = [(newSuite ''Outer'' False False)\<lparr>o_suites := [1]\<rparr>,
                 (newSuite ''Inner'' False False)
                   \<lparr>o_tests := [\<lparr>t_name = ''t'', t_fn = logs ''t'', t_skip = False,
                                  t_only = False\<rparr>]\<rparr>],
          currentSuite = None, rootSuites = [0]\<rparr>)"
    by (simp add: describe_def pushSuite_def ex_registry_def ex_failing_definition_def
                  test_def newSuite_def Let_def)
  have 6: "currentSuite (snd (describe ''Outer'' (describe ''Inner'' ex_failing_definition)
                                ex_registry)) = currentSuite ex_registry"
    using describe_restores_current_suite
            [THEN conjunct2, THEN conjunct2, THEN conjunct1,
             of "''Outer''" "describe ''Inner'' ex_failing_definition" ex_registry]
    by simp
  from 1 2 conjunct1 [OF 3] conjunct2 [OF 3] 4 5 6 show ?thesis by (intro conjI)
qed

end
